theory Spec2Isabelle
  imports Main "HOL-Library.AList" "HOL-Library.Code_Target_Nat"
begin

section \<open>JavaScript strings\<close>

text \<open>
  A JavaScript string is modelled as a \<^typ>\<open>string\<close>: the list of its code units.
  HOL characters are 8 bit wide, so the model covers the strings whose code units are
  below 256; every character the source tests for (slash, backslash, asterisk, dollar,
  colon, the white space of \<^verbatim>\<open>trim\<close>) is ASCII.
\<close>

abbreviation BSL :: char where
  "BSL \<equiv> CHR 0x5C"

abbreviation SQUOTE :: char where
  "SQUOTE \<equiv> CHR 0x27"

abbreviation BACKTICK :: char where
  "BACKTICK \<equiv> CHR 0x60"

text \<open>
  \<^verbatim>\<open>GetSubstitution\<close> of ECMAScript, for a match without capture groups (a string
  pattern, or a regular expression without groups): in the replacement text
  \<^verbatim>\<open>$$\<close> stands for a dollar, \<^verbatim>\<open>$&\<close> for the matched text,
  \<^verbatim>\<open>$`\<close> for the text before the match and \<^verbatim>\<open>$'\<close> for the text after it;
  any other dollar is kept.
\<close>

fun getSubstitution :: "string \<Rightarrow> string \<Rightarrow> nat \<Rightarrow> string \<Rightarrow> string" where
  "getSubstitution matched str position [] = []"
| "getSubstitution matched str position [c] = [c]"
| "getSubstitution matched str position (c # d # r) =
     (if c \<noteq> CHR ''$'' then c # getSubstitution matched str position (d # r)
      else if d = CHR ''$'' then CHR ''$'' # getSubstitution matched str position r
      else if d = CHR ''&'' then matched @ getSubstitution matched str position r
      else if d = BACKTICK then take position str @ getSubstitution matched str position r
      else if d = SQUOTE then
        drop (position + length matched) str @ getSubstitution matched str position r
      else c # getSubstitution matched str position (d # r))"

definition startsWith :: "string \<Rightarrow> string \<Rightarrow> bool" where
  "startsWith s pat = (take (length pat) s = pat)"

text \<open>\<^verbatim>\<open>s.indexOf(pat)\<close>: the first index at which \<open>pat\<close> occurs, if any.\<close>

fun indexOfFrom :: "string \<Rightarrow> nat \<Rightarrow> string \<Rightarrow> nat option" where
  "indexOfFrom pat i [] = (if pat = [] then Some i else None)"
| "indexOfFrom pat i (x # xs) =
     (if startsWith (x # xs) pat then Some i else indexOfFrom pat (Suc i) xs)"

definition indexOf :: "string \<Rightarrow> string \<Rightarrow> nat option" where
  "indexOf s pat = indexOfFrom pat 0 s"

text \<open>
  \<^verbatim>\<open>s.replace(pat, repl)\<close> with a string pattern: only the first occurrence is
  replaced, and the replacement text goes through \<^const>\<open>getSubstitution\<close>.
\<close>

definition String_replace :: "string \<Rightarrow> string \<Rightarrow> string \<Rightarrow> string" where
  "String_replace s pat repl =
     (case indexOf s pat of
        None \<Rightarrow> s
      | Some i \<Rightarrow> take i s @ getSubstitution pat s i repl @ drop (i + length pat) s)"

text \<open>
  \<^verbatim>\<open>s.replace(/lit/g, repl)\<close> for a regular expression that is a non-empty literal
  text (the three global replacements of the source are of this kind): every
  occurrence, found from left to right without overlap, is replaced.
\<close>

function replaceAllFrom :: "string \<Rightarrow> string \<Rightarrow> string \<Rightarrow> nat \<Rightarrow> string \<Rightarrow> string" where
  "replaceAllFrom lit repl str position rest =
     (case rest of
        [] \<Rightarrow> []
      | x # xs \<Rightarrow>
          if lit \<noteq> [] \<and> startsWith rest lit then
            getSubstitution lit str position repl
              @ replaceAllFrom lit repl str (position + length lit) (drop (length lit) rest)
          else x # replaceAllFrom lit repl str (Suc position) xs)"
  by pat_completeness auto
termination
  by (relation "measure (\<lambda>(lit, repl, str, position, rest). length rest)") auto

declare replaceAllFrom.simps [simp del]

definition String_replaceAll :: "string \<Rightarrow> string \<Rightarrow> string \<Rightarrow> string" where
  "String_replaceAll s lit repl = replaceAllFrom lit repl s 0 s"

text \<open>\<^verbatim>\<open>s.trim()\<close>: white space and line terminators are removed at both ends.\<close>

definition isWhiteSpace :: "char \<Rightarrow> bool" where
  "isWhiteSpace c =
     (c = CHR 0x09 \<or> c = CHR 0x0A \<or> c = CHR 0x0B \<or> c = CHR 0x0C \<or> c = CHR 0x0D
      \<or> c = CHR 0x20 \<or> c = CHR 0xA0)"

definition trim :: "string \<Rightarrow> string" where
  "trim s = rev (dropWhile isWhiteSpace (rev (dropWhile isWhiteSpace s)))"

text \<open>
  Number to string, as a template literal does it. A port is a natural number; the
  decimal form below is what JavaScript prints for every integer below \<open>10^21\<close>.
\<close>

definition digitChar :: "nat \<Rightarrow> char" where
  "digitChar d = ''0123456789'' ! d"

function Number_toString :: "nat \<Rightarrow> string" where
  "Number_toString n =
     (if n < 10 then [digitChar n] else Number_toString (n div 10) @ [digitChar (n mod 10)])"
  by pat_completeness auto
termination
  by (relation "measure id") auto

declare Number_toString.simps [simp del]

section \<open>Regular expressions\<close>

text \<open>
  The two regular expressions of the source are sequences of single-character atoms,
  each repeated between a lower and an optional upper bound (greedily) and possibly
  captured as a group, with the assertions \<^verbatim>\<open>^\<close> and \<^verbatim>\<open>$\<close>.
\<close>

datatype atom = Lit char | NotLit char | AnyChar

datatype piece = Bol | Eol | Rep atom nat "nat option" bool

definition isLineTerminator :: "char \<Rightarrow> bool" where
  "isLineTerminator c = (c = CHR 0x0A \<or> c = CHR 0x0D)"

text \<open>
  The case folding of the \<^verbatim>\<open>i\<close> flag (\<^verbatim>\<open>Canonicalize\<close> of ECMAScript, without the
  \<^verbatim>\<open>u\<close> flag): a code unit compares as its upper case, when that is a single code
  unit. Among the code units below 256, those whose upper case is another code unit
  below 256 are the letters \<^verbatim>\<open>a\<close> to \<^verbatim>\<open>z\<close> and the letters 0xE0 to 0xFE other
  than the division sign 0xF7; their upper case lies 32 below. The upper case of 0xB5
  and of 0xFF lies above 255 and that of 0xDF is two code units long, so within the
  strings of the model these three compare as themselves.
\<close>

definition canonicalize :: "char \<Rightarrow> char" where
  "canonicalize c =
     (let n = (of_char c :: nat)
      in if (97 \<le> n \<and> n \<le> 122) \<or> (224 \<le> n \<and> n \<le> 254 \<and> n \<noteq> 247)
         then char_of (n - 32) else c)"

fun atomMatches :: "bool \<Rightarrow> atom \<Rightarrow> char \<Rightarrow> bool" where
  "atomMatches ignoreCase (Lit c) x =
     (if ignoreCase then canonicalize x = canonicalize c else x = c)"
| "atomMatches ignoreCase (NotLit c) x =
     (if ignoreCase then canonicalize x \<noteq> canonicalize c else x \<noteq> c)"
| "atomMatches ignoreCase AnyChar x = (\<not> isLineTerminator x)"

fun firstSome :: "'a option list \<Rightarrow> 'a option" where
  "firstSome [] = None"
| "firstSome (None # xs) = firstSome xs"
| "firstSome (Some v # xs) = Some v"

text \<open>
  Matching a sequence of pieces at one position, by backtracking: a repetition first
  takes as many characters as it can and gives them back one at a time. The result is
  the list of the captured groups, in the order of the groups.
\<close>

fun matchHere :: "piece list \<Rightarrow> bool \<Rightarrow> nat \<Rightarrow> string \<Rightarrow> string list option" where
  "matchHere [] ignoreCase pos s = Some []"
| "matchHere (Bol # ps) ignoreCase pos s =
     (if pos = 0 then matchHere ps ignoreCase pos s else None)"
| "matchHere (Eol # ps) ignoreCase pos s =
     (if s = [] then matchHere ps ignoreCase pos s else None)"
| "matchHere (Rep a lo hi captured # ps) ignoreCase pos s =
     (let avail = length (takeWhile (atomMatches ignoreCase a) s);
          most = (case hi of None \<Rightarrow> avail | Some h \<Rightarrow> min h avail)
      in firstSome
           (map (\<lambda>n. map_option (\<lambda>groups. if captured then take n s # groups else groups)
                        (matchHere ps ignoreCase (pos + n) (drop n s)))
                (rev [lo ..< Suc most])))"

declare matchHere.simps [simp del]

text \<open>
  \<^verbatim>\<open>s.match(re)\<close> for a regular expression without the \<^verbatim>\<open>g\<close> flag: the match at
  the leftmost position where there is one; \<open>None\<close> is JavaScript's \<^verbatim>\<open>null\<close>.
\<close>

definition String_match :: "string \<Rightarrow> piece list \<Rightarrow> bool \<Rightarrow> string list option" where
  "String_match s re ignoreCase =
     firstSome (map (\<lambda>i. matchHere re ignoreCase i (drop i s)) [0 ..< Suc (length s)])"

text \<open>
  Element 1 of a match array. For a regular expression without a group it is
  \<^verbatim>\<open>undefined\<close>, which the string operations that receive it turn into the text
  \<^verbatim>\<open>undefined\<close>.
\<close>

definition group1 :: "string list \<Rightarrow> string" where
  "group1 groups = (case groups of [] \<Rightarrow> ''undefined'' | g # _ \<Rightarrow> g)"

section \<open>Remote targets\<close>

text \<open>
  \<^verbatim>\<open>IRemoteTargetJson\<close> is an object with string-valued properties (its index
  signature): a map from property names to strings, in which a property may be absent.
  The function below assigns to a property of its argument, so objects live in a heap
  and are passed by reference.
\<close>

type_synonym IRemoteTargetJson = "string \<rightharpoonup> string"

type_synonym ref = nat

type_synonym heap = "ref \<Rightarrow> IRemoteTargetJson"

text \<open>The regular expression \<^verbatim>\<open>/ws:\/\/([^/]+)\/?/\<close>.\<close>

definition wsAddressRegex :: "piece list" where
  "wsAddressRegex =
     [Rep (Lit (CHR ''w'')) 1 (Some 1) False,
      Rep (Lit (CHR ''s'')) 1 (Some 1) False,
      Rep (Lit (CHR '':'')) 1 (Some 1) False,
      Rep (Lit (CHR ''/'')) 1 (Some 1) False,
      Rep (Lit (CHR ''/'')) 1 (Some 1) False,
      Rep (NotLit (CHR ''/'')) 1 None True,
      Rep (Lit (CHR ''/'')) 0 (Some 1) False]"

definition fixRemoteWebSocket :: "string \<Rightarrow> nat \<Rightarrow> ref \<Rightarrow> heap \<Rightarrow> ref \<times> heap" where
  "fixRemoteWebSocket remoteAddress remotePort target h =
     (case h target ''webSocketDebuggerUrl'' of
        None \<Rightarrow> (target, h)
      | Some wsUrl \<Rightarrow>
          if wsUrl = [] then (target, h)
          else
            (case String_match wsUrl wsAddressRegex False of
               None \<Rightarrow> (target, h)
             | Some addressMatch \<Rightarrow>
                 let replaceAddress = remoteAddress @ '':'' @ Number_toString remotePort
                 in (target,
                     h(target := (h target)(''webSocketDebuggerUrl'' \<mapsto>
                         String_replace wsUrl (group1 addressMatch) replaceAddress)))))"

section \<open>Errors\<close>

text \<open>
  What the source can throw or reject with: an \<^verbatim>\<open>Error\<close> with a message (the
  rejection of a response whose status is not 200), an error of the network layer with
  its code, and the two errors of the language itself.
\<close>

datatype error = Error string | SystemError string | SyntaxError | TypeError

text \<open>
  A promise at the end of time: still pending (it never settles), resolved with a value,
  or rejected with an error. For an \<^verbatim>\<open>async\<close> function it is the promise the call
  returns: resolved with the value the body returns, rejected with the error the body
  throws, pending when the body awaits a promise that never settles.
\<close>

datatype 'a promise = Pending | Resolved 'a | Rejected error

section \<open>Fetching a uri\<close>

text \<open>
  \<^verbatim>\<open>fetchUri\<close> returns a promise; the model returns the state of that promise at
  the end of time. The network is a function from the request to the events the request
  and its response raise, in the order in which they are raised, over the whole life of
  the request: the request emits \<^verbatim>\<open>error\<close>; the request receives a response with a
  status code (the callback given to \<^verbatim>\<open>get\<close> is called); the response emits
  \<^verbatim>\<open>data\<close> with a chunk; the response emits \<^verbatim>\<open>end\<close>; the connection is
  lost before the end of the body, with some error of the network layer: the response
  emits \<^verbatim>\<open>aborted\<close> and \<^verbatim>\<open>close\<close>, and hands the error to the listeners for its
  \<^verbatim>\<open>error\<close> event, if it has any. The source registers a listener for the first four
  only, and sets no timeout. An error that \<^verbatim>\<open>get\<close> itself throws rejects the promise
  as an \<^verbatim>\<open>error\<close> of the request does, and is written as one. Which of
  \<^verbatim>\<open>http.get\<close> and \<^verbatim>\<open>https.get\<close> is called follows from the protocol of the uri,
  which is part of the request.
\<close>

record RequestOptions =
  rejectUnauthorized :: "bool option"
  headers :: "(string \<times> string) list"

record request =
  requestUri :: string
  requestRejectUnauthorized :: bool
  requestHeaders :: "(string \<times> string) list"

datatype event =
  RequestEmitsError error | Response nat | Data string | End | ResponseAborted error

type_synonym network = "request \<Rightarrow> event list"

text \<open>
  The options of the request: \<^verbatim>\<open>rejectUnauthorized: false\<close>, then the parsed uri,
  then the caller's options, a later entry overriding an earlier one.
\<close>

definition mergedOptions :: "string \<Rightarrow> RequestOptions \<Rightarrow> request" where
  "mergedOptions uri options =
     \<lparr>requestUri = uri,
      requestRejectUnauthorized =
        (case rejectUnauthorized options of None \<Rightarrow> False | Some b \<Rightarrow> b),
      requestHeaders = headers options\<rparr>"

text \<open>
  \<^verbatim>\<open>resolve\<close> and \<^verbatim>\<open>reject\<close> settle a promise that is pending and do nothing to
  one that is settled.
\<close>

fun settle :: "'a promise \<Rightarrow> 'a promise \<Rightarrow> 'a promise" where
  "settle Pending outcome = outcome"
| "settle (Resolved v) outcome = Resolved v"
| "settle (Rejected e) outcome = Rejected e"

text \<open>
  The listeners of the source, run over the events. The state is the response received,
  if any, as its status code and the \<^verbatim>\<open>responseData\<close> accumulated so far, and the
  promise. The callback of \<^verbatim>\<open>get\<close> is a one-time listener: it runs for the first
  response and starts with the empty \<^verbatim>\<open>responseData\<close>.
\<close>

fun handleEvents :: "(nat \<times> string) option \<Rightarrow> string promise \<Rightarrow> event list \<Rightarrow> string promise" where
  "handleEvents response p [] = p"
| "handleEvents response p (RequestEmitsError e # events) =
     handleEvents response (settle p (Rejected e)) events"
| "handleEvents response p (Response statusCode # events) =
     handleEvents (case response of None \<Rightarrow> Some (statusCode, []) | Some r \<Rightarrow> Some r) p events"
| "handleEvents response p (Data chunk # events) =
     handleEvents
       (case response of
          None \<Rightarrow> None
        | Some (statusCode, responseData) \<Rightarrow> Some (statusCode, responseData @ chunk))
       p events"
| "handleEvents response p (End # events) =
     handleEvents response
       (case response of
          None \<Rightarrow> p
        | Some (statusCode, responseData) \<Rightarrow>
            if statusCode = 200 then settle p (Resolved responseData)
            else settle p (Rejected (Error (trim responseData))))
       events"
| "handleEvents response p (ResponseAborted e # events) = handleEvents response p events"

definition fetchUri :: "network \<Rightarrow> string \<Rightarrow> RequestOptions \<Rightarrow> string promise" where
  "fetchUri net uri options = handleEvents None Pending (net (mergedOptions uri options))"

section \<open>Discovering the targets\<close>

text \<open>
  The value \<^verbatim>\<open>JSON.parse\<close> returns. The type of numbers is a parameter; the
  parser itself is a parameter of \<open>getListOfTargets\<close>, with \<open>None\<close> for the
  \<^verbatim>\<open>SyntaxError\<close> it throws.
\<close>

datatype 'n json =
  JNull | JBool bool | JNumber 'n | JString string
  | JArray "'n json list" | JObject "(string \<times> 'n json) list"

text \<open>The options of a discovery request: \<^verbatim>\<open>{ headers: { Host: "localhost" } }\<close>.\<close>

definition hostHeader :: RequestOptions where
  "hostHeader = \<lparr>rejectUnauthorized = None, headers = [(''Host'', ''localhost'')]\<rparr>"

definition checkDiscoveryEndpoint :: "network \<Rightarrow> string \<Rightarrow> string promise" where
  "checkDiscoveryEndpoint net uri = fetchUri net uri hostHeader"

text \<open>
  The loop over the endpoints. It returns the final \<^verbatim>\<open>jsonResponse\<close>, or \<open>None\<close>
  when the loop never ends because it awaits a fetch that never settles, together with
  the uris it requested, in the order of the requests.
\<close>

fun discoveryLoop ::
  "network \<Rightarrow> string \<Rightarrow> string \<Rightarrow> string list \<Rightarrow> string option \<times> string list" where
  "discoveryLoop net base jsonResponse [] = (Some jsonResponse, [])"
| "discoveryLoop net base jsonResponse (endpoint # rest) =
     (let uri = base @ endpoint
      in case checkDiscoveryEndpoint net uri of
           Resolved body \<Rightarrow>
             if body \<noteq> [] then (Some body, [uri])
             else (let (r, requested) = discoveryLoop net base body rest
                   in (r, uri # requested))
         | Rejected e \<Rightarrow>
             (let (r, requested) = discoveryLoop net base jsonResponse rest
              in (r, uri # requested))
         | Pending \<Rightarrow> (None, [uri]))"

definition discoveryBase :: "string \<Rightarrow> nat \<Rightarrow> bool \<Rightarrow> string" where
  "discoveryBase hostname port useHttps =
     (let protocol = (if useHttps then ''https'' else ''http'')
      in protocol @ ''://'' @ hostname @ '':'' @ Number_toString port)"

text \<open>\<^verbatim>\<open>Array.isArray\<close>: the value is a sequence.\<close>

fun isArray :: "'n json \<Rightarrow> bool" where
  "isArray (JArray elements) = True"
| "isArray JNull = False"
| "isArray (JBool b) = False"
| "isArray (JNumber n) = False"
| "isArray (JString t) = False"
| "isArray (JObject properties) = False"

definition getListOfTargets ::
  "network \<Rightarrow> (string \<Rightarrow> 'n json option) \<Rightarrow> string \<Rightarrow> nat \<Rightarrow> bool
     \<Rightarrow> 'n json promise \<times> string list" where
  "getListOfTargets net JSON_parse hostname port useHttps =
     (let (awaited, requested) =
            discoveryLoop net (discoveryBase hostname port useHttps) [] [''/json/list'', ''/json'']
      in case awaited of
           None \<Rightarrow> (Pending, requested)
         | Some jsonResponse \<Rightarrow>
             (let result = (case JSON_parse jsonResponse of None \<Rightarrow> JArray [] | Some v \<Rightarrow> v)
              in (Resolved result, requested)))"

section \<open>Path mapping\<close>

text \<open>
  An \<^verbatim>\<open>IStringDictionary<string>\<close> is the list of an object's own properties in
  the order \<^verbatim>\<open>Object.keys\<close> enumerates them; \<open>map_of\<close> reads a property.
\<close>

type_synonym IStringDictionary = "(string \<times> string) list"

definition Object_keys :: "IStringDictionary \<Rightarrow> string list" where
  "Object_keys obj = map fst obj"

text \<open>
  What the path functions take from outside the repository: \<^verbatim>\<open>properJoin\<close> and
  \<^verbatim>\<open>canonicalizeUrl\<close> of the debug-core library, as parameters, and
  \<^verbatim>\<open>vscode.workspace.workspaceFolders\<close>: undefined, or the list of the folders,
  each given by the text of its uri.
\<close>

record env =
  properJoin :: "string \<Rightarrow> string"
  canonicalizeUrl :: "string \<Rightarrow> string"
  workspaceFolders :: "string list option"

definition regexChars :: string where
  "regexChars = ''/'' @ [BSL] @ ''.?*()^${}|[]+''"

text \<open>
  Modelled from the spec: \<^verbatim>\<open>escapeRegexSpecialChars\<close> belongs to the debug-core
  library, which is not among the sources. The spec has it escape every regular
  expression metacharacter except those listed in its second argument (here the
  wildcard and the path separator); escaping puts a backslash before the character.
\<close>

definition escapeRegexSpecialChars :: "string \<Rightarrow> string \<Rightarrow> string" where
  "escapeRegexSpecialChars str except =
     concat (map (\<lambda>c. if c \<in> set regexChars \<and> c \<notin> set except then [BSL, c] else [c]) str)"

text \<open>
  \<^verbatim>\<open>new RegExp(source)\<close> for the sources the path mapping builds: the assertions,
  an escaped syntax character, the group \<^verbatim>\<open>(.*)\<close> and plain characters. \<open>None\<close>
  stands for every other source, among them those that throw a \<^verbatim>\<open>SyntaxError\<close>.
\<close>

definition syntaxCharacters :: string where
  "syntaxCharacters = ''^$'' @ [BSL] @ ''.*+?()[]{}|''"

definition single :: "char \<Rightarrow> piece" where
  "single c = Rep (Lit c) 1 (Some 1) False"

function RegExp :: "string \<Rightarrow> piece list option" where
  "RegExp src =
     (case src of
        [] \<Rightarrow> Some []
      | c # r \<Rightarrow>
          if c = CHR ''^'' then map_option ((#) Bol) (RegExp r)
          else if c = CHR ''$'' then map_option ((#) Eol) (RegExp r)
          else if c = BSL then
            (case r of
               [] \<Rightarrow> None
             | d # r' \<Rightarrow>
                 if d \<in> set syntaxCharacters \<or> d = CHR ''/''
                 then map_option ((#) (single d)) (RegExp r')
                 else None)
          else if startsWith src ''(.*)'' then
            map_option ((#) (Rep AnyChar 0 None True)) (RegExp (drop 4 src))
          else if c \<in> set syntaxCharacters then None
          else map_option ((#) (single c)) (RegExp r))"
  by pat_completeness auto
termination
  by (relation "measure length") auto

declare RegExp.simps [simp del]

definition replaceWorkSpaceFolderPlaceholder :: "env \<Rightarrow> string \<Rightarrow> error + string" where
  "replaceWorkSpaceFolderPlaceholder e path =
     (case workspaceFolders e of
        None \<Rightarrow> Inr []
      | Some [] \<Rightarrow> Inl TypeError
      | Some (folder0 # _) \<Rightarrow>
          if folder0 \<noteq> [] then
            (let replacedPath = String_replace path ''${workspaceFolder}'' folder0
             in Inr (canonicalizeUrl e replacedPath))
          else Inr [])"

definition leftRegexSource :: "string \<Rightarrow> string" where
  "leftRegexSource leftPattern =
     (let escapedLeftPattern = escapeRegexSpecialChars leftPattern ''/*'';
          leftRegexSegment =
            String_replaceAll (String_replaceAll escapedLeftPattern ''*'' ''(.*)'') [BSL, BSL] ''/''
      in ''^'' @ leftRegexSegment @ ''$'')"

text \<open>
  The body of the loop of \<^verbatim>\<open>applyPathMapping\<close> for one key: \<open>Inr None\<close> is
  \<^verbatim>\<open>continue\<close>, \<open>Inr (Some p)\<close> is \<^verbatim>\<open>return p\<close>, \<open>Inl\<close> an error thrown.
\<close>

definition asterisksOf :: "string \<Rightarrow> string" where
  "asterisksOf s = filter (\<lambda>c. c = CHR ''*'') s"

definition loopBody :: "env \<Rightarrow> string \<Rightarrow> IStringDictionary \<Rightarrow> string \<Rightarrow> error + string option" where
  "loopBody e forwardSlashSourcePath pathMapping leftPattern =
     (case map_of pathMapping leftPattern of
        None \<Rightarrow> Inl TypeError
      | Some rightPattern \<Rightarrow>
          let asterisks = asterisksOf leftPattern in
          if length asterisks > 1 then Inr None
          else
            let replacePatternAsterisks = asterisksOf rightPattern in
            if length replacePatternAsterisks > length asterisks then Inr None
            else
              (case RegExp (leftRegexSource leftPattern) of
                 None \<Rightarrow> Inl SyntaxError
               | Some leftRegex \<Rightarrow>
                   (case String_match forwardSlashSourcePath leftRegex True of
                      None \<Rightarrow> Inr None
                    | Some overridePatternMatches \<Rightarrow>
                        let wildcardValue = group1 overridePatternMatches;
                            mappedPath = String_replaceAll rightPattern ''*'' wildcardValue;
                            mappedPath' = properJoin e mappedPath
                        in map_sum id Some (replaceWorkSpaceFolderPlaceholder e mappedPath'))))"

fun applyLoop :: "env \<Rightarrow> string \<Rightarrow> IStringDictionary \<Rightarrow> string list \<Rightarrow> error + string option" where
  "applyLoop e forwardSlashSourcePath pathMapping [] = Inr None"
| "applyLoop e forwardSlashSourcePath pathMapping (leftPattern # rest) =
     (case loopBody e forwardSlashSourcePath pathMapping leftPattern of
        Inl err \<Rightarrow> Inl err
      | Inr (Some mappedPath) \<Rightarrow> Inr (Some mappedPath)
      | Inr None \<Rightarrow> applyLoop e forwardSlashSourcePath pathMapping rest)"

text \<open>
  \<^verbatim>\<open>sort((a, b) => b.length - a.length)\<close>: a stable sort, longest key first, which
  is the stable sort by ascending negated length.
\<close>

definition sortedOverrideKeys :: "IStringDictionary \<Rightarrow> string list" where
  "sortedOverrideKeys pathMapping = sort_key (\<lambda>k. - int (length k)) (Object_keys pathMapping)"

definition applyPathMapping :: "env \<Rightarrow> string \<Rightarrow> IStringDictionary \<Rightarrow> error + string" where
  "applyPathMapping e sourcePath pathMapping =
     (let forwardSlashSourcePath = String_replaceAll sourcePath [BSL] ''/''
      in case applyLoop e forwardSlashSourcePath pathMapping (sortedOverrideKeys pathMapping) of
           Inl err \<Rightarrow> Inl err
         | Inr (Some mappedPath) \<Rightarrow> Inr mappedPath
         | Inr None \<Rightarrow> Inr sourcePath)"

text \<open>
  Names for the parts of the loop body, used to state its properties: the test that
  skips an entry, the match of the expression built from a key against a path, the
  path an entry maps to once its key has matched, and an entry that is not skipped and
  whose key matches.
\<close>

definition skipsEntry :: "string \<Rightarrow> string \<Rightarrow> bool" where
  "skipsEntry leftPattern rightPattern =
     (length (asterisksOf leftPattern) > 1
      \<or> length (asterisksOf rightPattern) > length (asterisksOf leftPattern))"

definition patternMatch :: "string \<Rightarrow> string \<Rightarrow> string list option" where
  "patternMatch path leftPattern =
     (case RegExp (leftRegexSource leftPattern) of
        None \<Rightarrow> None
      | Some leftRegex \<Rightarrow> String_match path leftRegex True)"

definition mappedPathOf :: "env \<Rightarrow> string \<Rightarrow> string list \<Rightarrow> error + string" where
  "mappedPathOf e rightPattern groups =
     replaceWorkSpaceFolderPlaceholder e
       (properJoin e (String_replaceAll rightPattern ''*'' (group1 groups)))"

definition entryApplies :: "IStringDictionary \<Rightarrow> string \<Rightarrow> string \<Rightarrow> bool" where
  "entryApplies pathMapping path leftPattern =
     (case map_of pathMapping leftPattern of
        None \<Rightarrow> False
      | Some rightPattern \<Rightarrow>
          \<not> skipsEntry leftPattern rightPattern \<and> patternMatch path leftPattern \<noteq> None)"






text \<open>
  The text and the piece of the regular expression that one character of a key turns
  into.
\<close>

definition regexSegmentOf :: "char \<Rightarrow> string" where
  "regexSegmentOf c =
     (if c = CHR ''*'' then ''(.*)''
      else if c = BSL then ''/''
      else if c \<in> set regexChars \<and> c \<noteq> CHR ''/'' then [BSL, c]
      else [c])"

definition patternPiece :: "char \<Rightarrow> piece" where
  "patternPiece c =
     (if c = CHR ''*'' then Rep AnyChar 0 None True
      else if c = BSL then single (CHR ''/'')
      else single c)"

text \<open>
  The part of \<^verbatim>\<open>getRuntimeConfig\<close> that resolves the web root in the source map
  path overrides; assigning to a property that exists keeps its place in the
  enumeration order, a new property comes last.
\<close>

definition replaceWebRootInSourceMapPathOverridesEntry :: "string \<Rightarrow> string \<Rightarrow> string" where
  "replaceWebRootInSourceMapPathOverridesEntry webRoot entry =
     (if webRoot \<noteq> [] then
        (let webRootIndex = indexOf entry ''${webRoot}''
         in if webRootIndex = Some 0 then String_replace entry ''${webRoot}'' webRoot else entry)
      else entry)"

definition resolvedOverrides :: "string \<Rightarrow> IStringDictionary \<Rightarrow> IStringDictionary" where
  "resolvedOverrides webRoot sourceMapPathOverrides =
     foldl (\<lambda>resolved (pattern, val).
              AList.update (replaceWebRootInSourceMapPathOverridesEntry webRoot pattern)
                           (replaceWebRootInSourceMapPathOverridesEntry webRoot val) resolved)
           [] sourceMapPathOverrides"

section \<open>The screencast panel\<close>

text \<open>
  The state the class works on: the static field \<^verbatim>\<open>instance\<close>, the webview panels
  and the panel sockets that have been created and not yet disposed, and the next
  panel \<^verbatim>\<open>createWebviewPanel\<close> hands out. An instance of the class owns one panel
  and one socket; all three are named by the same number.
\<close>

record panelState =
  instance_static :: "nat option"
  livePanels :: "nat set"
  liveSockets :: "nat set"
  nextPanel :: nat

text \<open>
  Modelled from the spec: \<^verbatim>\<open>PanelSocket\<close> is a class of this repository that is not
  among the sources. The spec has its \<^verbatim>\<open>dispose\<close> idempotent: it closes the socket if
  it is open, and no event is raised after it returns.
\<close>

definition PanelSocket_dispose :: "nat \<Rightarrow> panelState \<Rightarrow> panelState" where
  "PanelSocket_dispose i s = s\<lparr>liveSockets := liveSockets s - {i}\<rparr>"

text \<open>
  \<^verbatim>\<open>dispose\<close> of the class, and \<^verbatim>\<open>dispose\<close> of a webview panel. Disposing a
  panel that is not yet disposed marks it disposed and then runs the handler the
  constructor registered with \<^verbatim>\<open>onDidDispose\<close>, which calls \<^verbatim>\<open>this.dispose()\<close>
  and \<^verbatim>\<open>this.panelSocket.dispose()\<close>; disposing a disposed panel does nothing.
\<close>

function dispose :: "nat \<Rightarrow> panelState \<Rightarrow> panelState"
  and WebviewPanel_dispose :: "nat \<Rightarrow> panelState \<Rightarrow> panelState" where
  "dispose this s =
     (let s1 = s\<lparr>instance_static := None\<rparr>;
          s2 = WebviewPanel_dispose this s1
      in PanelSocket_dispose this s2)"
| "WebviewPanel_dispose p s =
     (if p \<in> livePanels s then
        (let s1 = s\<lparr>livePanels := livePanels s - {p}\<rparr>;
             s2 = dispose p s1
         in PanelSocket_dispose p s2)
      else s)"
  by pat_completeness auto
termination
  by (relation "measure (\<lambda>x. case x of
                    Inl (i, s) \<Rightarrow> (if i \<in> livePanels s then 3 else 1)
                  | Inr (p, s) \<Rightarrow> (if p \<in> livePanels s then 2 else 0))") auto

declare dispose.simps [simp del] WebviewPanel_dispose.simps [simp del]

definition createOrShow :: "panelState \<Rightarrow> panelState" where
  "createOrShow s =
     (let s1 = (case instance_static s of Some i \<Rightarrow> dispose i s | None \<Rightarrow> s);
          panel = nextPanel s1;
          s2 = s1\<lparr>livePanels := insert panel (livePanels s1), nextPanel := Suc panel\<rparr>;
          s3 = s2\<lparr>liveSockets := insert panel (liveSockets s2)\<rparr>
      in s3\<lparr>instance_static := Some panel\<rparr>)"

definition initialState :: panelState where
  "initialState = \<lparr>instance_static = None, livePanels = {}, liveSockets = {}, nextPanel = 0\<rparr>"

text \<open>
  The states the extension can reach: \<^verbatim>\<open>createOrShow\<close> is called, the user closes a
  panel that is open, or the socket of a live session closes (the handler of its
  \<^verbatim>\<open>close\<close> event calls \<^verbatim>\<open>dispose\<close>).
\<close>

inductive reachable :: "panelState \<Rightarrow> bool" where
  start: "reachable initialState"
| create: "reachable s \<Longrightarrow> reachable (createOrShow s)"
| panelClosed: "reachable s \<Longrightarrow> p \<in> livePanels s \<Longrightarrow> reachable (WebviewPanel_dispose p s)"
| socketClosed: "reachable s \<Longrightarrow> i \<in> liveSockets s \<Longrightarrow> reachable (dispose i s)"

section \<open>Concrete inputs\<close>

definition exampleHeap :: heap where
  "exampleHeap =
     (\<lambda>_. [''id'' \<mapsto> ''ABC'', ''title'' \<mapsto> ''Example'', ''type'' \<mapsto> ''page'',
            ''url'' \<mapsto> ''http://example.test/'',
            ''webSocketDebuggerUrl'' \<mapsto> ''ws://127.0.0.1:9222/devtools/page/ABC''])"

definition shortHostHeap :: heap where
  "shortHostHeap = (\<lambda>_. [''webSocketDebuggerUrl'' \<mapsto> ''ws://s/devtools/page/ABC''])"

text \<open>
  Networks and a parser. On the first, \<^verbatim>\<open>/json/list\<close> answers with status 500 and
  \<^verbatim>\<open>/json\<close> with an array of one target; on the second, \<^verbatim>\<open>/json/list\<close> answers
  200 with a body of one space; on the third, every request fails; on the fourth,
  \<^verbatim>\<open>/json/list\<close> answers 200 with the body \<^verbatim>\<open>null\<close>; on the fifth, the connection
  is lost after the headers and one chunk of the answer of \<^verbatim>\<open>/json/list\<close>: the
  response is aborted, the request emits no error. The parser knows the texts used here.
\<close>

definition fallbackNet :: network where
  "fallbackNet rq =
     (if requestUri rq = ''http://localhost:9222/json/list''
      then [Response 500, Data ''  Internal Server'', Data '' Error  '', End]
      else if requestUri rq = ''http://localhost:9222/json''
      then [Response 200, Data ''[{'', Data ''}]'', End]
      else [RequestEmitsError (SystemError ''ECONNREFUSED'')])"

definition whitespaceNet :: network where
  "whitespaceNet rq =
     (if requestUri rq = ''http://localhost:9222/json/list''
      then [Response 200, Data '' '', End]
      else if requestUri rq = ''http://localhost:9222/json''
      then [Response 200, Data ''[{'', Data ''}]'', End]
      else [RequestEmitsError (SystemError ''ECONNREFUSED'')])"

definition deadNet :: network where
  "deadNet rq = [RequestEmitsError (SystemError ''ECONNREFUSED'')]"

definition nullNet :: network where
  "nullNet rq =
     (if requestUri rq = ''http://localhost:9222/json/list''
      then [Response 200, Data ''null'', End]
      else [RequestEmitsError (SystemError ''ECONNREFUSED'')])"

definition droppedNet :: network where
  "droppedNet rq =
     (if requestUri rq = ''http://localhost:9222/json/list''
      then [Response 200, Data ''[{'', ResponseAborted (SystemError ''ECONNRESET'')]
      else [RequestEmitsError (SystemError ''ECONNREFUSED'')])"

definition exampleParse :: "string \<Rightarrow> nat json option" where
  "exampleParse body =
     (if body = ''[]'' then Some (JArray [])
      else if body = ''[{}]'' then Some (JArray [JObject []])
      else if body = ''null'' then Some JNull
      else None)"

text \<open>
  Environments in which the two library functions leave a path as it is (as they do
  for the absolute paths used below): one with a workspace folder, one whose list of
  workspace folders is empty.
\<close>

definition posixEnv :: env where
  "posixEnv =
     \<lparr>properJoin = (\<lambda>p. p), canonicalizeUrl = (\<lambda>p. p),
      workspaceFolders = Some [''file:///home/me/ws'']\<rparr>"

definition emptyWorkspaceEnv :: env where
  "emptyWorkspaceEnv =
     \<lparr>properJoin = (\<lambda>p. p), canonicalizeUrl = (\<lambda>p. p), workspaceFolders = Some []\<rparr>"

definition webpackOverrides :: IStringDictionary where
  "webpackOverrides = [(''webpack:///*'', ''*''), (''webpack:///./*'', ''/proj/*'')]"



text \<open>
  A table whose first entry has two wildcards on the left, whose second has more
  wildcards on the right than on the left, and whose third does not match the path
  \<^verbatim>\<open>aXbY\<close>.
\<close>

definition skippingOverrides :: IStringDictionary where
  "skippingOverrides = [(''a*b*'', ''x''), (''*'', ''**''), (''zzz'', ''y'')]"

section \<open>Rewriting the socket address\<close>

lemma fixRemoteWebSocket_example:
  "snd (fixRemoteWebSocket ''10.0.0.5'' 9230 0 exampleHeap) 0 ''webSocketDebuggerUrl''
     = Some ''ws://10.0.0.5:9230/devtools/page/ABC''"
  by code_simp

lemma fixRemoteWebSocket_no_url:
  "h target ''webSocketDebuggerUrl'' = None \<Longrightarrow>
     fixRemoteWebSocket remoteAddress remotePort target h = (target, h)"
  by (simp add: fixRemoteWebSocket_def)

lemma getSubstitution_no_dollar:
  "CHR ''$'' \<notin> set repl \<Longrightarrow> getSubstitution matched str position repl = repl"
  by (induction matched str position repl rule: getSubstitution.induct) auto

lemma digitChar_is_digit: "d < 10 \<Longrightarrow> digitChar d \<in> set ''0123456789''"
  unfolding digitChar_def by (rule nth_mem) simp

lemma digitChar_not_dollar: "d < 10 \<Longrightarrow> digitChar d \<noteq> CHR ''$''"
  using digitChar_is_digit [of d] by auto

lemma Number_toString_no_dollar: "CHR ''$'' \<notin> set (Number_toString n)"
proof (induction n rule: Number_toString.induct)
  case (1 n)
  show ?case
  proof (cases "n < 10")
    case True
    then show ?thesis
      using digitChar_not_dollar [of n] by (subst Number_toString.simps) auto
  next
    case False
    with 1 have "CHR ''$'' \<notin> set (Number_toString (n div 10))"
      by simp
    moreover have "digitChar (n mod 10) \<noteq> CHR ''$''"
      by (rule digitChar_not_dollar) simp
    ultimately show ?thesis
      using False by (subst Number_toString.simps) auto
  qed
qed

lemma matchHere_single:
  "matchHere (Rep (Lit c) (Suc 0) (Some (Suc 0)) False # ps) False pos (c # s)
     = matchHere ps False (Suc pos) s"
proof -
  have "min (Suc 0) (length (takeWhile (atomMatches False (Lit c)) (c # s))) = Suc 0"
    by simp
  then show ?thesis
    by (cases "matchHere ps False (Suc pos) s") (simp_all add: matchHere.simps Let_def)
qed

lemma takeWhile_host:
  assumes "CHR ''/'' \<notin> set host" "rest = [] \<or> hd rest = CHR ''/''"
  shows "takeWhile (atomMatches False (NotLit (CHR ''/''))) (host @ rest) = host"
proof -
  have "takeWhile (atomMatches False (NotLit (CHR ''/''))) (host @ rest)
          = host @ takeWhile (atomMatches False (NotLit (CHR ''/''))) rest"
    using assms(1) by (intro takeWhile_append2) auto
  moreover have "takeWhile (atomMatches False (NotLit (CHR ''/''))) rest = []"
    using assms(2) by (cases rest) auto
  ultimately show ?thesis
    by simp
qed

lemma matchHere_optional_end:
  "matchHere [Rep a 0 (Some (Suc 0)) False] False pos s = Some []"
  by (simp add: matchHere.simps Let_def)

lemma matchHere_host:
  assumes "host \<noteq> []" "CHR ''/'' \<notin> set host" "rest = [] \<or> hd rest = CHR ''/''"
  shows "matchHere [Rep (NotLit (CHR ''/'')) (Suc 0) None True,
                    Rep (Lit (CHR ''/'')) 0 (Some (Suc 0)) False]
           False pos (host @ rest) = Some [host]"
proof -
  have len: "Suc 0 \<le> length host"
    using assms(1) by (cases host) simp_all
  then have "rev [Suc 0 ..< Suc (length host)] = length host # rev [Suc 0 ..< length host]"
    by simp
  then show ?thesis
    using assms
    by (subst matchHere.simps) (simp add: Let_def takeWhile_host matchHere_optional_end del: upt_Suc)
qed

lemma String_match_ws:
  assumes "host \<noteq> []" "CHR ''/'' \<notin> set host" "rest = [] \<or> hd rest = CHR ''/''"
  shows "String_match (''ws://'' @ host @ rest) wsAddressRegex False = Some [host]"
proof -
  have "matchHere wsAddressRegex False 0 (''ws://'' @ host @ rest) = Some [host]"
    using assms by (simp add: wsAddressRegex_def matchHere_single matchHere_host)
  moreover have "[0 ..< Suc (length (''ws://'' @ host @ rest))]
                   = 0 # [1 ..< Suc (length (''ws://'' @ host @ rest))]"
    by (simp add: upt_rec)
  ultimately show ?thesis
    by (simp add: String_match_def del: upt_Suc)
qed

lemma startsWith_Cons_Cons: "startsWith (c # t) (x # ps) \<longleftrightarrow> c = x \<and> startsWith t ps"
  by (auto simp: startsWith_def)

lemma startsWith_Nil: "startsWith t []"
  by (simp add: startsWith_def)

lemma startsWith_self: "startsWith (p @ rest) p"
  by (simp add: startsWith_def)

lemma indexOfFrom_here: "s \<noteq> [] \<Longrightarrow> startsWith s pat \<Longrightarrow> indexOfFrom pat i s = Some i"
  by (cases s) simp_all

lemma short_cases:
  obtains "p = []" | a where "p = [a]" | a b where "p = [a, b]" | a b c where "p = [a, b, c]"
    | a b c d q where "p = a # b # c # d # q"
proof (cases p)
  case Nil
  then show ?thesis using that by simp
next
  case p1: (Cons a p1)
  show ?thesis
  proof (cases p1)
    case Nil
    with p1 show ?thesis using that by simp
  next
    case p2: (Cons b p2)
    show ?thesis
    proof (cases p2)
      case Nil
      with p1 p2 show ?thesis using that by simp
    next
      case p3: (Cons c p3)
      show ?thesis
      proof (cases p3)
        case Nil
        with p1 p2 p3 show ?thesis using that by simp
      next
        case (Cons d q)
        with p1 p2 p3 show ?thesis using that by simp
      qed
    qed
  qed
qed

lemma not_startsWith_scheme:
  assumes "host \<noteq> []" "CHR ''/'' \<notin> set host"
    and "host \<notin> {''w'', ''s'', '':'', ''ws'', ''s:'', ''ws:''}"
  shows "\<not> startsWith (''ws://'' @ host @ rest) host
    \<and> \<not> startsWith (''s://'' @ host @ rest) host
    \<and> \<not> startsWith (''://'' @ host @ rest) host
    \<and> \<not> startsWith (''//'' @ host @ rest) host
    \<and> \<not> startsWith (''/'' @ host @ rest) host"
proof (cases host rule: short_cases)
  case 1
  with assms show ?thesis by simp
next
  case (2 a)
  with assms show ?thesis by (auto simp: startsWith_Cons_Cons startsWith_Nil)
next
  case (3 a b)
  with assms show ?thesis by (auto simp: startsWith_Cons_Cons startsWith_Nil)
next
  case (4 a b c)
  with assms show ?thesis by (auto simp: startsWith_Cons_Cons startsWith_Nil)
next
  case (5 a b c d q)
  with assms show ?thesis by (auto simp: startsWith_Cons_Cons startsWith_Nil)
qed

lemma indexOf_host:
  assumes "host \<noteq> []" "CHR ''/'' \<notin> set host"
    and "host \<notin> {''w'', ''s'', '':'', ''ws'', ''s:'', ''ws:''}"
  shows "indexOf (''ws://'' @ host @ rest) host = Some 5"
proof -
  note no = not_startsWith_scheme [OF assms, of rest]
  have here: "indexOfFrom host 5 (host @ rest) = Some 5"
    using assms(1) by (intro indexOfFrom_here startsWith_self) simp
  have "indexOfFrom host 0 (''ws://'' @ host @ rest) = indexOfFrom host 5 (host @ rest)"
    using no by (simp add: eval_nat_numeral)
  with here show ?thesis
    by (simp add: indexOf_def)
qed

text \<open>
  Where the rewrite is right: the url is \<^verbatim>\<open>ws://\<close>, a host and a rest that is
  empty or begins with a slash; the text of the host does not occur in the scheme
  before it; and the remote address has no dollar sign (which \<^verbatim>\<open>replace\<close> would
  expand). Then the host is replaced by the remote address and port.
\<close>

lemma fixRemoteWebSocket_rewrites_host:
  assumes url: "h target ''webSocketDebuggerUrl'' = Some (''ws://'' @ host @ rest)"
    and host: "host \<noteq> []" "CHR ''/'' \<notin> set host" "rest = [] \<or> hd rest = CHR ''/''"
    and first: "host \<notin> {''w'', ''s'', '':'', ''ws'', ''s:'', ''ws:''}"
    and addr: "CHR ''$'' \<notin> set remoteAddress"
  shows "snd (fixRemoteWebSocket remoteAddress remotePort target h) target ''webSocketDebuggerUrl''
           = Some (''ws://'' @ remoteAddress @ '':'' @ Number_toString remotePort @ rest)"
proof -
  let ?url = "''ws://'' @ host @ rest"
  let ?repl = "remoteAddress @ '':'' @ Number_toString remotePort"
  have m: "String_match ?url wsAddressRegex False = Some [host]"
    using host by (rule String_match_ws)
  have "CHR ''$'' \<notin> set ?repl"
    using addr Number_toString_no_dollar [of remotePort] by simp
  then have sub: "getSubstitution host ?url 5 ?repl = ?repl"
    by (rule getSubstitution_no_dollar)
  have "drop (5 + length host) ?url = rest" "take 5 ?url = ''ws://''"
    by (simp_all add: eval_nat_numeral)
  then have "String_replace ?url host ?repl = ''ws://'' @ ?repl @ rest"
    using indexOf_host [OF host(1,2) first, of rest] sub
    by (simp add: String_replace_def del: append.simps drop_Cons_numeral take_Cons_numeral)
  with url m show ?thesis
    by (simp add: fixRemoteWebSocket_def group1_def Let_def)
qed

text \<open>
  C4. The claim: a target whose \<^verbatim>\<open>webSocketDebuggerUrl\<close> matches
  \<^verbatim>\<open>ws://<host>/...\<close> comes back with the host replaced by the remote address and
  port. The source replaces the first occurrence of the host's text in the url, not the
  host where it was matched: for the url \<^verbatim>\<open>ws://s/devtools/page/ABC\<close> the host is
  \<^verbatim>\<open>s\<close>, whose first occurrence is in the scheme, and the result is not a url of the
  remote address. (The spec's own example, and every url covered by
  \<open>fixRemoteWebSocket_rewrites_host\<close>, is rewritten as the claim says.)
\<close>

theorem fixRemoteWebSocket_replaces_first_occurrence:
  "snd (fixRemoteWebSocket ''10.0.0.5'' 9230 0 shortHostHeap) 0 ''webSocketDebuggerUrl''
     = Some ''w10.0.0.5:9230://s/devtools/page/ABC''"
  by code_simp

text \<open>
  C10. \<^verbatim>\<open>fixRemoteWebSocket\<close> returns the reference it was given; in the heap no
  other object changes, and of the target no property other than
  \<^verbatim>\<open>webSocketDebuggerUrl\<close> changes (so \<^verbatim>\<open>id\<close>, \<^verbatim>\<open>title\<close>, \<^verbatim>\<open>url\<close>,
  \<^verbatim>\<open>description\<close>, \<^verbatim>\<open>type\<close>, \<^verbatim>\<open>devtoolsFrontendUrl\<close> and \<^verbatim>\<open>faviconUrl\<close>
  are as they were, present or absent).
\<close>

theorem fixRemoteWebSocket_frame:
  "fst (fixRemoteWebSocket remoteAddress remotePort target h) = target
   \<and> (\<forall>r. r \<noteq> target \<longrightarrow> snd (fixRemoteWebSocket remoteAddress remotePort target h) r = h r)
   \<and> (\<forall>k. k \<noteq> ''webSocketDebuggerUrl'' \<longrightarrow>
          snd (fixRemoteWebSocket remoteAddress remotePort target h) target k = h target k)"
  by (simp add: fixRemoteWebSocket_def Let_def split: option.splits)

theorem fixRemoteWebSocket_frame_witness:
  "fst (fixRemoteWebSocket ''10.0.0.5'' 9230 0 exampleHeap) = 0
   \<and> snd (fixRemoteWebSocket ''10.0.0.5'' 9230 0 exampleHeap) 1 = exampleHeap 1
   \<and> snd (fixRemoteWebSocket ''10.0.0.5'' 9230 0 exampleHeap) 0 ''title'' = Some ''Example''
   \<and> snd (fixRemoteWebSocket ''10.0.0.5'' 9230 0 exampleHeap) 0 ''id'' = Some ''ABC''
   \<and> snd (fixRemoteWebSocket ''10.0.0.5'' 9230 0 exampleHeap) 0 ''faviconUrl'' = None
   \<and> snd (fixRemoteWebSocket ''10.0.0.5'' 9230 0 exampleHeap) 0 ''webSocketDebuggerUrl''
       \<noteq> exampleHeap 0 ''webSocketDebuggerUrl''"
  using fixRemoteWebSocket_frame [of "''10.0.0.5''" 9230 0 exampleHeap] fixRemoteWebSocket_example
  by (simp add: exampleHeap_def)

section \<open>The fetch primitive\<close>

lemma settle_settled: "p \<noteq> Pending \<Longrightarrow> settle p outcome = p"
  by (cases p) simp_all

lemma handleEvents_settled: "p \<noteq> Pending \<Longrightarrow> handleEvents response p events = p"
  by (induction response p events rule: handleEvents.induct)
     (auto simp: settle_settled split: option.splits)

lemma handleEvents_data:
  "handleEvents (Some (statusCode, responseData)) p (map Data chunks @ events)
     = handleEvents (Some (statusCode, responseData @ concat chunks)) p events"
  by (induction chunks arbitrary: responseData) simp_all

lemma handleEvents_ended:
  "handleEvents None Pending (Response statusCode # map Data chunks @ End # events)
     = (if statusCode = 200 then Resolved (concat chunks)
        else Rejected (Error (trim (concat chunks))))"
  by (simp add: handleEvents_data handleEvents_settled)

lemma handleEvents_no_listener_runs:
  "End \<notin> set events \<Longrightarrow> \<forall>e. RequestEmitsError e \<notin> set events \<Longrightarrow>
     handleEvents response p events = p"
  by (induction response p events rule: handleEvents.induct) auto

lemma handleEvents_error_first:
  "End \<notin> set before \<Longrightarrow> \<forall>e'. RequestEmitsError e' \<notin> set before \<Longrightarrow>
     handleEvents response Pending (before @ RequestEmitsError e # events) = Rejected e"
proof (induction before arbitrary: response)
  case Nil
  show ?case
    by (simp add: handleEvents_settled)
next
  case (Cons ev before)
  then show ?case
    by (cases ev) auto
qed

lemma handleEvents_resolved:
  "handleEvents response Pending events = Resolved body \<Longrightarrow>
     End \<in> set events \<and> ((\<exists>d. response = Some (200, d)) \<or> Response 200 \<in> set events)"
proof (induction events arbitrary: response)
  case Nil
  then show ?case
    by simp
next
  case (Cons ev events)
  show ?case
  proof (cases ev)
    case (RequestEmitsError e)
    with Cons.prems show ?thesis
      by (simp add: handleEvents_settled)
  next
    case (Response statusCode)
    with Cons.prems Cons.IH [of "case response of None \<Rightarrow> Some (statusCode, []) | Some r \<Rightarrow> Some r"]
    show ?thesis
      by (auto split: option.splits)
  next
    case (Data chunk)
    with Cons.prems
      Cons.IH [of "case response of None \<Rightarrow> None
                   | Some (statusCode, responseData) \<Rightarrow> Some (statusCode, responseData @ chunk)"]
    show ?thesis
      by (auto split: option.splits)
  next
    case End
    with Cons.prems Cons.IH [of response] show ?thesis
      by (auto simp: handleEvents_settled split: option.splits if_splits)
  next
    case (ResponseAborted e)
    with Cons.prems Cons.IH [of response] show ?thesis
      by simp
  qed
qed

text \<open>
  C6, as the spec states it, has every error of the network reject the promise. The
  source listens to the \<^verbatim>\<open>error\<close> event of the request only: when the connection is
  lost after the response has begun, the response is aborted, the request emits no error
  and \<^verbatim>\<open>end\<close> never comes, so the promise is neither resolved nor rejected.
\<close>

theorem fetchUri_pending_after_lost_connection:
  "droppedNet (mergedOptions ''http://localhost:9222/json/list'' hostHeader)
     = [Response 200, Data ''[{'', ResponseAborted (SystemError ''ECONNRESET'')]
   \<and> fetchUri droppedNet ''http://localhost:9222/json/list'' hostHeader = Pending
   \<and> fetchUri droppedNet ''http://localhost:9222/json/list'' hostHeader
       \<noteq> Rejected (SystemError ''ECONNRESET'')"
  by code_simp

text \<open>
  C6, amended. When the response ends, \<^verbatim>\<open>fetchUri\<close> resolves with the accumulated
  body text if the status is 200, and otherwise rejects with an \<^verbatim>\<open>Error\<close> whose
  message is the trimmed body text. When the request emits an error before any response
  has ended, it rejects with that error. When the request emits no error and no response
  ends (no answer at all, or a connection lost after the response has begun), the promise
  stays pending. It resolves only if a response with status 200 has ended.
\<close>

theorem fetchUri_settles:
  "(net (mergedOptions uri options) = Response statusCode # map Data chunks @ End # later \<longrightarrow>
      fetchUri net uri options
        = (if statusCode = 200 then Resolved (concat chunks)
           else Rejected (Error (trim (concat chunks)))))
   \<and> (net (mergedOptions uri options) = before @ RequestEmitsError e # later'
        \<and> End \<notin> set before \<and> (\<forall>e'. RequestEmitsError e' \<notin> set before) \<longrightarrow>
      fetchUri net uri options = Rejected e)
   \<and> (End \<notin> set (net (mergedOptions uri options))
        \<and> (\<forall>e'. RequestEmitsError e' \<notin> set (net (mergedOptions uri options))) \<longrightarrow>
      fetchUri net uri options = Pending)
   \<and> (fetchUri net uri options = Resolved body \<longrightarrow>
      End \<in> set (net (mergedOptions uri options))
      \<and> Response 200 \<in> set (net (mergedOptions uri options)))"
proof -
  have "fetchUri net uri options
          = (if statusCode = 200 then Resolved (concat chunks)
             else Rejected (Error (trim (concat chunks))))"
    if "net (mergedOptions uri options) = Response statusCode # map Data chunks @ End # later"
    unfolding fetchUri_def that by (rule handleEvents_ended)
  moreover have "fetchUri net uri options = Rejected e"
    if "net (mergedOptions uri options) = before @ RequestEmitsError e # later'"
      "End \<notin> set before" "\<forall>e'. RequestEmitsError e' \<notin> set before"
    unfolding fetchUri_def that(1) using that(2,3) by (rule handleEvents_error_first)
  moreover have "fetchUri net uri options = Pending"
    if "End \<notin> set (net (mergedOptions uri options))"
      "\<forall>e'. RequestEmitsError e' \<notin> set (net (mergedOptions uri options))"
    unfolding fetchUri_def using that by (rule handleEvents_no_listener_runs)
  moreover have "End \<in> set (net (mergedOptions uri options))
      \<and> Response 200 \<in> set (net (mergedOptions uri options))"
    if "fetchUri net uri options = Resolved body"
    using handleEvents_resolved [of None "net (mergedOptions uri options)" body] that
    by (simp add: fetchUri_def)
  ultimately show ?thesis
    by blast
qed

theorem fetchUri_settles_witness:
  "fetchUri fallbackNet ''http://localhost:9222/json'' hostHeader = Resolved ''[{}]''
   \<and> fetchUri fallbackNet ''http://localhost:9222/json/list'' hostHeader
       = Rejected (Error ''Internal Server Error'')
   \<and> fetchUri fallbackNet ''http://localhost:9222/json/version'' hostHeader
       = Rejected (SystemError ''ECONNREFUSED'')
   \<and> fetchUri droppedNet ''http://localhost:9222/json/list'' hostHeader = Pending
   \<and> End \<in> set (fallbackNet (mergedOptions ''http://localhost:9222/json'' hostHeader))
   \<and> Response 200 \<in> set (fallbackNet (mergedOptions ''http://localhost:9222/json'' hostHeader))"
proof -
  have a: "fallbackNet (mergedOptions ''http://localhost:9222/json'' hostHeader)
             = Response 200 # map Data [''[{'', ''}]''] @ End # []"
    by code_simp
  have b: "fallbackNet (mergedOptions ''http://localhost:9222/json/list'' hostHeader)
             = Response 500 # map Data [''  Internal Server'', '' Error  ''] @ End # []"
    by code_simp
  have c: "fallbackNet (mergedOptions ''http://localhost:9222/json/version'' hostHeader)
             = [] @ RequestEmitsError (SystemError ''ECONNREFUSED'') # []"
    by code_simp
  have d: "droppedNet (mergedOptions ''http://localhost:9222/json/list'' hostHeader)
             = [Response 200, Data ''[{'', ResponseAborted (SystemError ''ECONNRESET'')]"
    by code_simp
  have t: "trim (concat [''  Internal Server'', '' Error  '']) = ''Internal Server Error''"
    by code_simp
  from fetchUri_settles [where net = fallbackNet and uri = "''http://localhost:9222/json''"
        and options = hostHeader and statusCode = 200 and chunks = "[''[{'', ''}]'']"
        and later = "[]"] a
  have 1: "fetchUri fallbackNet ''http://localhost:9222/json'' hostHeader = Resolved ''[{}]''"
    by simp
  from fetchUri_settles [where net = fallbackNet and uri = "''http://localhost:9222/json/list''"
        and options = hostHeader and statusCode = 500
        and chunks = "[''  Internal Server'', '' Error  '']" and later = "[]"] b t
  have 2: "fetchUri fallbackNet ''http://localhost:9222/json/list'' hostHeader
       = Rejected (Error ''Internal Server Error'')"
    by simp
  from fetchUri_settles [where net = fallbackNet and uri = "''http://localhost:9222/json/version''"
        and options = hostHeader and before = "[]" and e = "SystemError ''ECONNREFUSED''"
        and later' = "[]"] c
  have 3: "fetchUri fallbackNet ''http://localhost:9222/json/version'' hostHeader
       = Rejected (SystemError ''ECONNREFUSED'')"
    by simp
  from fetchUri_settles [where net = droppedNet and uri = "''http://localhost:9222/json/list''"
        and options = hostHeader] d
  have 4: "fetchUri droppedNet ''http://localhost:9222/json/list'' hostHeader = Pending"
    by simp
  from fetchUri_settles [where net = fallbackNet and uri = "''http://localhost:9222/json''"
        and options = hostHeader and body = "''[{}]''"] 1
  have 5: "End \<in> set (fallbackNet (mergedOptions ''http://localhost:9222/json'' hostHeader))
     \<and> Response 200 \<in> set (fallbackNet (mergedOptions ''http://localhost:9222/json'' hostHeader))"
    by simp
  from 1 2 3 4 5 show ?thesis
    by simp
qed

section \<open>Target discovery\<close>

lemma discoveryLoop_two:
  "discoveryLoop net base [] [a, b] =
     (case checkDiscoveryEndpoint net (base @ a) of
        Pending \<Rightarrow> (None, [base @ a])
      | Resolved body \<Rightarrow>
          if body \<noteq> [] then (Some body, [base @ a])
          else (case checkDiscoveryEndpoint net (base @ b) of
                  Pending \<Rightarrow> (None, [base @ a, base @ b])
                | Resolved body' \<Rightarrow> (Some body', [base @ a, base @ b])
                | Rejected e \<Rightarrow> (Some [], [base @ a, base @ b]))
      | Rejected e \<Rightarrow>
          (case checkDiscoveryEndpoint net (base @ b) of
             Pending \<Rightarrow> (None, [base @ a, base @ b])
           | Resolved body' \<Rightarrow> (Some body', [base @ a, base @ b])
           | Rejected e \<Rightarrow> (Some [], [base @ a, base @ b])))"
  by (simp add: Let_def split: promise.splits)

lemma checkDiscoveryEndpoint_ended:
  assumes "net (mergedOptions uri hostHeader) = Response statusCode # map Data chunks @ End # later"
  shows "checkDiscoveryEndpoint net uri
           = (if statusCode = 200 then Resolved (concat chunks)
              else Rejected (Error (trim (concat chunks))))"
  unfolding checkDiscoveryEndpoint_def fetchUri_def assms by (rule handleEvents_ended)

lemma discoveryBase_example: "discoveryBase ''localhost'' 9222 False = ''http://localhost:9222''"
  by code_simp

text \<open>
  C1, as the spec states it, has the second endpoint tried when the body of the first
  is empty after trimming. The source tests the body as it is: a body of one space is
  not empty, so \<^verbatim>\<open>/json\<close> is never requested, the space is what is parsed, and the
  result is the empty array although \<^verbatim>\<open>/json\<close> would have answered with a target.
\<close>

theorem getListOfTargets_whitespace_body_no_fallback:
  "checkDiscoveryEndpoint whitespaceNet ''http://localhost:9222/json/list'' = Resolved '' ''
   \<and> trim '' '' = []
   \<and> checkDiscoveryEndpoint whitespaceNet ''http://localhost:9222/json'' = Resolved ''[{}]''
   \<and> getListOfTargets whitespaceNet exampleParse ''localhost'' 9222 False
       = (Resolved (JArray []), [''http://localhost:9222/json/list''])"
  by code_simp

text \<open>
  C1, amended. \<^verbatim>\<open>getListOfTargets\<close> first requests
  \<^verbatim>\<open>{scheme}://{hostname}:{port}/json/list\<close>. It goes on to request
  \<^verbatim>\<open>{scheme}://{hostname}:{port}/json\<close> exactly when the first fetch rejects (the
  request fails or the status is not 200) or resolves with the empty text; a first body
  that is not empty, white space included, ends the search. The body parsed is that of
  the first endpoint that answered with a non-empty body (else the body of the second,
  if it answered at all), whether or not it is valid JSON: the result is what the parser
  returns, and the empty array when the parser throws. In particular, when
  \<^verbatim>\<open>/json/list\<close> answers with status 500 and \<^verbatim>\<open>/json\<close> with a JSON array, the
  result is that array.
\<close>

theorem getListOfTargets_fallback:
  "(\<exists>later. snd (getListOfTargets net JSON_parse hostname port useHttps)
              = (discoveryBase hostname port useHttps @ ''/json/list'') # later)
   \<and> (snd (getListOfTargets net JSON_parse hostname port useHttps)
        = [discoveryBase hostname port useHttps @ ''/json/list'',
           discoveryBase hostname port useHttps @ ''/json'']
       \<longleftrightarrow> (\<exists>e. checkDiscoveryEndpoint net (discoveryBase hostname port useHttps @ ''/json/list'')
                    = Rejected e)
            \<or> checkDiscoveryEndpoint net (discoveryBase hostname port useHttps @ ''/json/list'')
                = Resolved [])
   \<and> ((\<exists>body. checkDiscoveryEndpoint net (discoveryBase hostname port useHttps @ ''/json/list'')
                 = Resolved body \<and> body \<noteq> [])
       \<longrightarrow> snd (getListOfTargets net JSON_parse hostname port useHttps)
             = [discoveryBase hostname port useHttps @ ''/json/list''])
   \<and> (checkDiscoveryEndpoint net (discoveryBase hostname port useHttps @ ''/json/list'')
          = Resolved body
        \<and> body \<noteq> []
       \<longrightarrow> fst (getListOfTargets net JSON_parse hostname port useHttps)
             = Resolved (case JSON_parse body of None \<Rightarrow> JArray [] | Some v \<Rightarrow> v))
   \<and> (((\<exists>e. checkDiscoveryEndpoint net (discoveryBase hostname port useHttps @ ''/json/list'')
                = Rejected e)
         \<or> checkDiscoveryEndpoint net (discoveryBase hostname port useHttps @ ''/json/list'')
             = Resolved [])
        \<and> checkDiscoveryEndpoint net (discoveryBase hostname port useHttps @ ''/json'')
            = Resolved body'
       \<longrightarrow> fst (getListOfTargets net JSON_parse hostname port useHttps)
             = Resolved (case JSON_parse body' of None \<Rightarrow> JArray [] | Some v \<Rightarrow> v))
   \<and> (net (mergedOptions (discoveryBase hostname port useHttps @ ''/json/list'') hostHeader)
          = Response 500 # map Data chunks @ End # later1
        \<and> net (mergedOptions (discoveryBase hostname port useHttps @ ''/json'') hostHeader)
          = Response 200 # map Data chunks' @ End # later2
        \<and> JSON_parse (concat chunks') = Some (JArray targets)
       \<longrightarrow> fst (getListOfTargets net JSON_parse hostname port useHttps)
             = Resolved (JArray targets))"
proof -
  have "fst (getListOfTargets net JSON_parse hostname port useHttps) = Resolved (JArray targets)"
    if "net (mergedOptions (discoveryBase hostname port useHttps @ ''/json/list'') hostHeader)
          = Response 500 # map Data chunks @ End # later1"
      "net (mergedOptions (discoveryBase hostname port useHttps @ ''/json'') hostHeader)
          = Response 200 # map Data chunks' @ End # later2"
      "JSON_parse (concat chunks') = Some (JArray targets)"
    unfolding getListOfTargets_def discoveryLoop_two
    using checkDiscoveryEndpoint_ended [of net _ 500 chunks later1, OF that(1)]
      checkDiscoveryEndpoint_ended [of net _ 200 chunks' later2, OF that(2)] that(3)
    by simp
  moreover have "\<exists>later. snd (getListOfTargets net JSON_parse hostname port useHttps)
              = (discoveryBase hostname port useHttps @ ''/json/list'') # later"
    unfolding getListOfTargets_def discoveryLoop_two
    by (simp split: promise.splits)
  moreover have "snd (getListOfTargets net JSON_parse hostname port useHttps)
        = [discoveryBase hostname port useHttps @ ''/json/list'',
           discoveryBase hostname port useHttps @ ''/json'']
       \<longleftrightarrow> (\<exists>e. checkDiscoveryEndpoint net (discoveryBase hostname port useHttps @ ''/json/list'')
                    = Rejected e)
            \<or> checkDiscoveryEndpoint net (discoveryBase hostname port useHttps @ ''/json/list'')
                = Resolved []"
    unfolding getListOfTargets_def discoveryLoop_two
    by (auto split: promise.splits)
  moreover have "snd (getListOfTargets net JSON_parse hostname port useHttps)
             = [discoveryBase hostname port useHttps @ ''/json/list'']"
    if "\<exists>body. checkDiscoveryEndpoint net (discoveryBase hostname port useHttps @ ''/json/list'')
                 = Resolved body \<and> body \<noteq> []"
    unfolding getListOfTargets_def discoveryLoop_two using that
    by auto
  moreover have "fst (getListOfTargets net JSON_parse hostname port useHttps)
             = Resolved (case JSON_parse body of None \<Rightarrow> JArray [] | Some v \<Rightarrow> v)"
    if "checkDiscoveryEndpoint net (discoveryBase hostname port useHttps @ ''/json/list'')
          = Resolved body" "body \<noteq> []"
    unfolding getListOfTargets_def discoveryLoop_two using that
    by simp
  moreover have "fst (getListOfTargets net JSON_parse hostname port useHttps)
             = Resolved (case JSON_parse body' of None \<Rightarrow> JArray [] | Some v \<Rightarrow> v)"
    if "(\<exists>e. checkDiscoveryEndpoint net (discoveryBase hostname port useHttps @ ''/json/list'')
                = Rejected e)
         \<or> checkDiscoveryEndpoint net (discoveryBase hostname port useHttps @ ''/json/list'')
             = Resolved []"
      "checkDiscoveryEndpoint net (discoveryBase hostname port useHttps @ ''/json'')
            = Resolved body'"
    unfolding getListOfTargets_def discoveryLoop_two using that
    by auto
  ultimately show ?thesis
    by blast
qed

theorem getListOfTargets_fallback_witness:
  "fallbackNet (mergedOptions ''http://localhost:9222/json/list'' hostHeader)
     = [Response 500, Data ''  Internal Server'', Data '' Error  '', End]
   \<and> fallbackNet (mergedOptions ''http://localhost:9222/json'' hostHeader)
     = [Response 200, Data ''[{'', Data ''}]'', End]
   \<and> exampleParse ''[{}]'' = Some (JArray [JObject []])
   \<and> fst (getListOfTargets fallbackNet exampleParse ''localhost'' 9222 False)
       = Resolved (JArray [JObject []])
   \<and> snd (getListOfTargets fallbackNet exampleParse ''localhost'' 9222 False)
       = [''http://localhost:9222/json/list'', ''http://localhost:9222/json'']
   \<and> checkDiscoveryEndpoint whitespaceNet ''http://localhost:9222/json/list'' = Resolved '' ''
   \<and> getListOfTargets whitespaceNet exampleParse ''localhost'' 9222 False
       = (Resolved (JArray []), [''http://localhost:9222/json/list''])"
proof -
  have a: "fallbackNet (mergedOptions ''http://localhost:9222/json/list'' hostHeader)
             = Response 500 # map Data [''  Internal Server'', '' Error  ''] @ End # []"
    by code_simp
  have b: "fallbackNet (mergedOptions ''http://localhost:9222/json'' hostHeader)
             = Response 200 # map Data [''[{'', ''}]''] @ End # []"
    by code_simp
  have c: "exampleParse (concat [''[{'', ''}]'']) = Some (JArray [JObject []])"
    by code_simp
  have d: "''http://localhost:9222'' @ ''/json/list'' = ''http://localhost:9222/json/list''"
          "''http://localhost:9222'' @ ''/json'' = ''http://localhost:9222/json''"
    by simp_all
  have e: "checkDiscoveryEndpoint fallbackNet ''http://localhost:9222/json/list''
             = Rejected (Error ''Internal Server Error'')"
    by code_simp
  have f: "checkDiscoveryEndpoint whitespaceNet ''http://localhost:9222/json/list''
             = Resolved '' ''"
    by code_simp
  have g: "exampleParse '' '' = None"
    by code_simp
  from getListOfTargets_fallback [where net = fallbackNet and JSON_parse = exampleParse
        and hostname = "''localhost''" and port = 9222 and useHttps = False
        and chunks = "[''  Internal Server'', '' Error  '']" and chunks' = "[''[{'', ''}]'']"
        and ?later1.0 = "[]" and ?later2.0 = "[]" and targets = "[JObject []]"]
  have 1: "fst (getListOfTargets fallbackNet exampleParse ''localhost'' 9222 False)
             = Resolved (JArray [JObject []])
           \<and> snd (getListOfTargets fallbackNet exampleParse ''localhost'' 9222 False)
             = [''http://localhost:9222/json/list'', ''http://localhost:9222/json'']"
    unfolding discoveryBase_example d using a b c e by simp
  from getListOfTargets_fallback [where net = whitespaceNet and JSON_parse = exampleParse
        and hostname = "''localhost''" and port = 9222 and useHttps = False and body = "'' ''"]
  have 2: "fst (getListOfTargets whitespaceNet exampleParse ''localhost'' 9222 False)
             = Resolved (JArray [])
           \<and> snd (getListOfTargets whitespaceNet exampleParse ''localhost'' 9222 False)
             = [''http://localhost:9222/json/list'']"
    unfolding discoveryBase_example d using f g by simp
  from 1 2 a b c f show ?thesis
    by (simp add: prod_eq_iff)
qed

text \<open>
  C5, as the spec states it, has \<^verbatim>\<open>getListOfTargets\<close> return a sequence whatever the
  fetches do. The source returns what \<^verbatim>\<open>JSON.parse\<close> returns, whatever it is: when
  \<^verbatim>\<open>/json/list\<close> answers with the body \<^verbatim>\<open>null\<close>, the result is \<^verbatim>\<open>null\<close>, which
  is no sequence.
\<close>

theorem getListOfTargets_null_body:
  "checkDiscoveryEndpoint nullNet ''http://localhost:9222/json/list'' = Resolved ''null''
   \<and> exampleParse ''null'' = Some JNull
   \<and> getListOfTargets nullNet exampleParse ''localhost'' 9222 False
       = (Resolved JNull, [''http://localhost:9222/json/list''])
   \<and> \<not> isArray (JNull :: nat json)"
  by code_simp

text \<open>
  C5, amended. \<^verbatim>\<open>getListOfTargets\<close> never throws: its promise is never rejected,
  whatever the fetches and the parser do. It returns once the fetches it awaits have
  settled, and never returns (nor throws) when one of them never settles. What it returns
  is the empty array when both fetches fail (the empty text does not parse) and when the
  chosen body does not parse, and otherwise the value the parser returns for the chosen
  body, a sequence or not: it is a sequence exactly when that value is one. The chosen
  body is that of \<^verbatim>\<open>/json/list\<close> when it is not empty, else that of \<^verbatim>\<open>/json\<close>,
  else the empty text.
\<close>

theorem getListOfTargets_never_throws:
  "fst (getListOfTargets net JSON_parse hostname port useHttps) \<noteq> Rejected err
   \<and> (fst (getListOfTargets net JSON_parse hostname port useHttps) = Pending
       \<longleftrightarrow> checkDiscoveryEndpoint net (discoveryBase hostname port useHttps @ ''/json/list'')
              = Pending
            \<or> ((\<exists>e. checkDiscoveryEndpoint net
                       (discoveryBase hostname port useHttps @ ''/json/list'') = Rejected e)
                \<or> checkDiscoveryEndpoint net
                     (discoveryBase hostname port useHttps @ ''/json/list'') = Resolved [])
               \<and> checkDiscoveryEndpoint net (discoveryBase hostname port useHttps @ ''/json'')
                   = Pending)
   \<and> (checkDiscoveryEndpoint net (discoveryBase hostname port useHttps @ ''/json/list'')
          = Rejected e1
        \<and> checkDiscoveryEndpoint net (discoveryBase hostname port useHttps @ ''/json'')
          = Rejected e2
        \<and> JSON_parse [] = None
       \<longrightarrow> fst (getListOfTargets net JSON_parse hostname port useHttps) = Resolved (JArray []))
   \<and> (fst (discoveryLoop net (discoveryBase hostname port useHttps) []
              [''/json/list'', ''/json'']) = Some chosen
       \<longrightarrow> (chosen \<noteq> []
              \<and> checkDiscoveryEndpoint net (discoveryBase hostname port useHttps @ ''/json/list'')
                  = Resolved chosen)
            \<or> checkDiscoveryEndpoint net (discoveryBase hostname port useHttps @ ''/json'')
                = Resolved chosen
            \<or> (chosen = []
                \<and> (\<exists>e. checkDiscoveryEndpoint net
                          (discoveryBase hostname port useHttps @ ''/json'') = Rejected e)))
   \<and> (fst (discoveryLoop net (discoveryBase hostname port useHttps) []
              [''/json/list'', ''/json'']) = Some chosen
        \<and> JSON_parse chosen = None
       \<longrightarrow> fst (getListOfTargets net JSON_parse hostname port useHttps) = Resolved (JArray []))
   \<and> (fst (discoveryLoop net (discoveryBase hostname port useHttps) []
              [''/json/list'', ''/json'']) = Some chosen
        \<and> JSON_parse chosen = Some v
       \<longrightarrow> fst (getListOfTargets net JSON_parse hostname port useHttps) = Resolved v
            \<and> (isArray v \<longleftrightarrow> (\<exists>targets. v = JArray targets)))"
proof -
  have "fst (getListOfTargets net JSON_parse hostname port useHttps) \<noteq> Rejected err"
    unfolding getListOfTargets_def discoveryLoop_two
    by (simp split: promise.splits)
  moreover have "fst (getListOfTargets net JSON_parse hostname port useHttps) = Pending
       \<longleftrightarrow> checkDiscoveryEndpoint net (discoveryBase hostname port useHttps @ ''/json/list'')
              = Pending
            \<or> ((\<exists>e. checkDiscoveryEndpoint net
                       (discoveryBase hostname port useHttps @ ''/json/list'') = Rejected e)
                \<or> checkDiscoveryEndpoint net
                     (discoveryBase hostname port useHttps @ ''/json/list'') = Resolved [])
               \<and> checkDiscoveryEndpoint net (discoveryBase hostname port useHttps @ ''/json'')
                   = Pending"
    unfolding getListOfTargets_def discoveryLoop_two
    by (auto split: promise.splits)
  moreover have "fst (getListOfTargets net JSON_parse hostname port useHttps)
                   = Resolved (JArray [])"
    if "checkDiscoveryEndpoint net (discoveryBase hostname port useHttps @ ''/json/list'')
          = Rejected e1"
       "checkDiscoveryEndpoint net (discoveryBase hostname port useHttps @ ''/json'')
          = Rejected e2"
       "JSON_parse [] = None"
    unfolding getListOfTargets_def discoveryLoop_two using that
    by simp
  moreover have "(chosen \<noteq> []
              \<and> checkDiscoveryEndpoint net (discoveryBase hostname port useHttps @ ''/json/list'')
                  = Resolved chosen)
            \<or> checkDiscoveryEndpoint net (discoveryBase hostname port useHttps @ ''/json'')
                = Resolved chosen
            \<or> (chosen = []
                \<and> (\<exists>e. checkDiscoveryEndpoint net
                          (discoveryBase hostname port useHttps @ ''/json'') = Rejected e))"
    if "fst (discoveryLoop net (discoveryBase hostname port useHttps) []
              [''/json/list'', ''/json'']) = Some chosen"
    using that unfolding discoveryLoop_two
    by (auto split: promise.splits if_splits)
  moreover have "fst (getListOfTargets net JSON_parse hostname port useHttps)
                   = Resolved (JArray [])"
    if "fst (discoveryLoop net (discoveryBase hostname port useHttps) []
              [''/json/list'', ''/json'']) = Some chosen" "JSON_parse chosen = None"
    unfolding getListOfTargets_def using that
    by (simp add: split_beta)
  moreover have "fst (getListOfTargets net JSON_parse hostname port useHttps) = Resolved v
            \<and> (isArray v \<longleftrightarrow> (\<exists>targets. v = JArray targets))"
    if "fst (discoveryLoop net (discoveryBase hostname port useHttps) []
              [''/json/list'', ''/json'']) = Some chosen" "JSON_parse chosen = Some v"
    unfolding getListOfTargets_def using that
    by (cases v) (simp_all add: split_beta)
  ultimately show ?thesis
    by blast
qed

theorem getListOfTargets_never_throws_witness:
  "checkDiscoveryEndpoint deadNet ''http://localhost:9222/json/list''
     = Rejected (SystemError ''ECONNREFUSED'')
   \<and> checkDiscoveryEndpoint deadNet ''http://localhost:9222/json''
     = Rejected (SystemError ''ECONNREFUSED'')
   \<and> exampleParse [] = None
   \<and> fst (getListOfTargets deadNet exampleParse ''localhost'' 9222 False) = Resolved (JArray [])
   \<and> fst (discoveryLoop fallbackNet ''http://localhost:9222'' [] [''/json/list'', ''/json''])
       = Some ''[{}]''
   \<and> fst (getListOfTargets fallbackNet exampleParse ''localhost'' 9222 False)
       = Resolved (JArray [JObject []])
   \<and> fst (discoveryLoop whitespaceNet ''http://localhost:9222'' [] [''/json/list'', ''/json''])
       = Some '' ''
   \<and> fst (getListOfTargets whitespaceNet exampleParse ''localhost'' 9222 False)
       = Resolved (JArray [])
   \<and> checkDiscoveryEndpoint droppedNet ''http://localhost:9222/json/list'' = Pending
   \<and> fst (getListOfTargets droppedNet exampleParse ''localhost'' 9222 False) = Pending"
proof -
  have a: "checkDiscoveryEndpoint deadNet ''http://localhost:9222/json/list''
             = Rejected (SystemError ''ECONNREFUSED'')"
    by code_simp
  have b: "checkDiscoveryEndpoint deadNet ''http://localhost:9222/json''
             = Rejected (SystemError ''ECONNREFUSED'')"
    by code_simp
  have c: "exampleParse [] = None"
    by code_simp
  have d: "''http://localhost:9222'' @ ''/json/list'' = ''http://localhost:9222/json/list''"
          "''http://localhost:9222'' @ ''/json'' = ''http://localhost:9222/json''"
    by simp_all
  have chosen: "fst (discoveryLoop fallbackNet ''http://localhost:9222'' []
                       [''/json/list'', ''/json'']) = Some ''[{}]''"
    by code_simp
  have parsed: "exampleParse ''[{}]'' = Some (JArray [JObject []])"
    by code_simp
  have chosen': "fst (discoveryLoop whitespaceNet ''http://localhost:9222'' []
                       [''/json/list'', ''/json'']) = Some '' ''"
    by code_simp
  have parsed': "exampleParse '' '' = None"
    by code_simp
  have dropped: "checkDiscoveryEndpoint droppedNet ''http://localhost:9222/json/list'' = Pending"
    by code_simp
  from getListOfTargets_never_throws [where net = deadNet and JSON_parse = exampleParse
        and hostname = "''localhost''" and port = 9222 and useHttps = False
        and ?e1.0 = "SystemError ''ECONNREFUSED''" and ?e2.0 = "SystemError ''ECONNREFUSED''"]
  have 1: "fst (getListOfTargets deadNet exampleParse ''localhost'' 9222 False)
             = Resolved (JArray [])"
    unfolding discoveryBase_example d using a b c by simp
  from getListOfTargets_never_throws [where net = fallbackNet and JSON_parse = exampleParse
        and hostname = "''localhost''" and port = 9222 and useHttps = False
        and chosen = "''[{}]''" and v = "JArray [JObject []]"]
  have 2: "fst (getListOfTargets fallbackNet exampleParse ''localhost'' 9222 False)
             = Resolved (JArray [JObject []])"
    unfolding discoveryBase_example using chosen parsed by simp
  from getListOfTargets_never_throws [where net = whitespaceNet and JSON_parse = exampleParse
        and hostname = "''localhost''" and port = 9222 and useHttps = False
        and chosen = "'' ''"]
  have 3: "fst (getListOfTargets whitespaceNet exampleParse ''localhost'' 9222 False)
             = Resolved (JArray [])"
    unfolding discoveryBase_example using chosen' parsed' by simp
  from getListOfTargets_never_throws [where net = droppedNet and JSON_parse = exampleParse
        and hostname = "''localhost''" and port = 9222 and useHttps = False]
  have 4: "fst (getListOfTargets droppedNet exampleParse ''localhost'' 9222 False) = Pending"
    unfolding discoveryBase_example d using dropped by simp
  from 1 2 3 4 a b c chosen chosen' dropped show ?thesis
    by simp
qed

section \<open>The regular expression of a key\<close>

lemma getSubstitution_group: "getSubstitution matched str position ''(.*)'' = ''(.*)''"
  by simp

lemma getSubstitution_slash: "getSubstitution matched str position ''/'' = ''/''"
  by simp

lemma replaceAllFrom_Nil: "replaceAllFrom lit repl str position [] = []"
  by (subst replaceAllFrom.simps) simp

lemma replaceAllFrom_star:
  "replaceAllFrom ''*'' ''(.*)'' str position rest
     = concat (map (\<lambda>c. if c = CHR ''*'' then ''(.*)'' else [c]) rest)"
proof (induction rest arbitrary: position)
  case Nil
  show ?case by (simp add: replaceAllFrom_Nil)
next
  case (Cons x xs)
  show ?case
    by (subst replaceAllFrom.simps) (simp add: startsWith_def Cons.IH)
qed

lemma replaceAllFrom_bsl_other:
  "x \<noteq> BSL \<Longrightarrow>
     replaceAllFrom [BSL, BSL] repl str position (x # xs)
       = x # replaceAllFrom [BSL, BSL] repl str (Suc position) xs"
  by (subst replaceAllFrom.simps) (simp add: startsWith_def)

lemma replaceAllFrom_bsl_escaped:
  "x \<noteq> BSL \<Longrightarrow>
     replaceAllFrom [BSL, BSL] repl str position (BSL # x # xs)
       = BSL # x # replaceAllFrom [BSL, BSL] repl str (Suc (Suc position)) xs"
  by (subst replaceAllFrom.simps) (simp add: startsWith_def replaceAllFrom_bsl_other)

lemma replaceAllFrom_bsl_pair:
  "replaceAllFrom [BSL, BSL] ''/'' str position (BSL # BSL # xs)
     = CHR ''/'' # replaceAllFrom [BSL, BSL] ''/'' str (position + 2) xs"
  by (subst replaceAllFrom.simps) (simp add: startsWith_def)


lemma escapeRegexSpecialChars_Cons:
  "escapeRegexSpecialChars (c # p) except
     = (if c \<in> set regexChars \<and> c \<notin> set except then [BSL, c] else [c])
       @ escapeRegexSpecialChars p except"
  by (simp add: escapeRegexSpecialChars_def)

lemma escapeRegexSpecialChars_Nil: "escapeRegexSpecialChars [] except = []"
  by (simp add: escapeRegexSpecialChars_def)

lemma regexChars_cases:
  "c \<in> set regexChars \<longleftrightarrow>
     c = CHR ''/'' \<or> c = BSL \<or> c = CHR ''.'' \<or> c = CHR ''?'' \<or> c = CHR ''*'' \<or> c = CHR ''(''
     \<or> c = CHR '')'' \<or> c = CHR ''^'' \<or> c = CHR ''$'' \<or> c = CHR ''{'' \<or> c = CHR ''}''
     \<or> c = CHR ''|'' \<or> c = CHR ''['' \<or> c = CHR '']'' \<or> c = CHR ''+''"
  by (simp add: regexChars_def)

lemma syntaxCharacters_cases:
  "c \<in> set syntaxCharacters \<longleftrightarrow>
     c = CHR ''^'' \<or> c = CHR ''$'' \<or> c = BSL \<or> c = CHR ''.'' \<or> c = CHR ''*'' \<or> c = CHR ''+''
     \<or> c = CHR ''?'' \<or> c = CHR ''('' \<or> c = CHR '')'' \<or> c = CHR ''['' \<or> c = CHR '']''
     \<or> c = CHR ''{'' \<or> c = CHR ''}'' \<or> c = CHR ''|''"
  by (simp add: syntaxCharacters_def)

lemma regexSegment:
  "replaceAllFrom [BSL, BSL] ''/'' str position
     (concat (map (\<lambda>c. if c = CHR ''*'' then ''(.*)'' else [c])
                  (escapeRegexSpecialChars p ''/*'')))
     = concat (map regexSegmentOf p)"
proof (induction p arbitrary: position)
  case Nil
  show ?case by (simp add: escapeRegexSpecialChars_Nil replaceAllFrom_Nil)
next
  case (Cons c p)
  consider (star) "c = CHR ''*''" | (bsl) "c = BSL"
    | (special) "c \<in> set regexChars" "c \<noteq> CHR ''*''" "c \<noteq> BSL" "c \<noteq> CHR ''/''"
    | (plain) "c \<noteq> CHR ''*''" "c \<noteq> BSL" "c \<notin> set regexChars \<or> c = CHR ''/''"
    by blast
  then show ?case
  proof cases
    case star
    then have "regexSegmentOf c = ''(.*)''"
      by (simp add: regexSegmentOf_def)
    with star show ?thesis
      by (simp add: escapeRegexSpecialChars_Cons replaceAllFrom_bsl_other Cons.IH)
  next
    case bsl
    then have "regexSegmentOf c = ''/''" "c \<in> set regexChars"
      by (simp_all add: regexSegmentOf_def regexChars_cases)
    with bsl show ?thesis
      by (simp add: escapeRegexSpecialChars_Cons replaceAllFrom_bsl_pair Cons.IH)
  next
    case special
    then have "regexSegmentOf c = [BSL, c]"
      by (simp add: regexSegmentOf_def)
    with special show ?thesis
      by (simp add: escapeRegexSpecialChars_Cons replaceAllFrom_bsl_escaped Cons.IH)
  next
    case plain
    then have "regexSegmentOf c = [c]"
      by (auto simp: regexSegmentOf_def)
    with plain show ?thesis
      by (auto simp: escapeRegexSpecialChars_Cons replaceAllFrom_bsl_other Cons.IH)
  qed
qed

lemma RegExp_Nil: "RegExp [] = Some []"
  by (subst RegExp.simps) simp

lemma RegExp_eol: "RegExp (CHR ''$'' # r) = map_option ((#) Eol) (RegExp r)"
  by (subst RegExp.simps) simp

lemma RegExp_bol: "RegExp (CHR ''^'' # r) = map_option ((#) Bol) (RegExp r)"
  by (subst RegExp.simps) simp

lemma RegExp_plain:
  "c \<notin> set syntaxCharacters \<Longrightarrow> RegExp (c # r) = map_option ((#) (single c)) (RegExp r)"
  by (subst RegExp.simps) (auto simp: syntaxCharacters_cases startsWith_def)

lemma RegExp_escaped:
  "d \<in> set syntaxCharacters \<Longrightarrow>
     RegExp (BSL # d # r) = map_option ((#) (single d)) (RegExp r)"
  by (subst RegExp.simps) simp

lemma RegExp_group:
  "RegExp (CHR ''('' # CHR ''.'' # CHR ''*'' # CHR '')'' # r)
     = map_option ((#) (Rep AnyChar 0 None True)) (RegExp r)"
  by (subst RegExp.simps) (simp add: startsWith_def)

lemma RegExp_segment:
  "RegExp (concat (map regexSegmentOf p) @ ''$'') = Some (map patternPiece p @ [Eol])"
proof (induction p)
  case Nil
  show ?case by (simp add: RegExp_eol RegExp_Nil)
next
  case (Cons c p)
  consider (star) "c = CHR ''*''" | (bsl) "c = BSL"
    | (special) "c \<in> set regexChars" "c \<noteq> CHR ''*''" "c \<noteq> BSL" "c \<noteq> CHR ''/''"
    | (plain) "c \<noteq> CHR ''*''" "c \<noteq> BSL" "c \<notin> set regexChars \<or> c = CHR ''/''"
    by blast
  then show ?case
  proof cases
    case star
    then have "regexSegmentOf c = ''(.*)''" "patternPiece c = Rep AnyChar 0 None True"
      by (simp_all add: regexSegmentOf_def patternPiece_def)
    then show ?thesis
      by (simp add: RegExp_group Cons.IH)
  next
    case bsl
    then have "regexSegmentOf c = ''/''" "patternPiece c = single (CHR ''/'')"
      by (simp_all add: regexSegmentOf_def patternPiece_def)
    moreover have "CHR ''/'' \<notin> set syntaxCharacters"
      by (simp add: syntaxCharacters_cases)
    ultimately show ?thesis
      by (simp add: RegExp_plain Cons.IH)
  next
    case special
    then have "regexSegmentOf c = [BSL, c]" "patternPiece c = single c"
      by (simp_all add: regexSegmentOf_def patternPiece_def)
    moreover from special have "c \<in> set syntaxCharacters"
      by (auto simp: syntaxCharacters_cases regexChars_cases)
    ultimately show ?thesis
      by (simp add: RegExp_escaped Cons.IH)
  next
    case plain
    then have "regexSegmentOf c = [c]" "patternPiece c = single c"
      by (auto simp: regexSegmentOf_def patternPiece_def)
    moreover from plain have "c \<notin> set syntaxCharacters"
      by (auto simp: syntaxCharacters_cases regexChars_cases)
    ultimately show ?thesis
      by (simp add: RegExp_plain Cons.IH)
  qed
qed

lemma leftRegexSource_segments:
  "leftRegexSource leftPattern = CHR ''^'' # concat (map regexSegmentOf leftPattern) @ ''$''"
  by (simp add: leftRegexSource_def String_replaceAll_def replaceAllFrom_star regexSegment)

lemma RegExp_leftRegexSource:
  "RegExp (leftRegexSource leftPattern) = Some (Bol # map patternPiece leftPattern @ [Eol])"
  by (simp add: leftRegexSource_segments RegExp_bol RegExp_segment)


section \<open>Matching anchored and ignoring case\<close>



















lemma patternPiece_literal:
  "c \<noteq> CHR ''*'' \<Longrightarrow> patternPiece c = single (if c = BSL then CHR ''/'' else c)"
  by (simp add: patternPiece_def)











section \<open>Path mapping\<close>

lemma loopBody_cases:
  "loopBody e path pathMapping k =
     (case map_of pathMapping k of
        None \<Rightarrow> Inl TypeError
      | Some r \<Rightarrow>
          if skipsEntry k r then Inr None
          else (case patternMatch path k of
                  None \<Rightarrow> Inr None
                | Some groups \<Rightarrow> map_sum id Some (mappedPathOf e r groups)))"
  by (auto simp: loopBody_def skipsEntry_def patternMatch_def mappedPathOf_def
        RegExp_leftRegexSource Let_def split: option.splits)

lemma key_has_value:
  "k \<in> set (Object_keys pathMapping) \<Longrightarrow> \<exists>r. map_of pathMapping k = Some r"
  by (cases "map_of pathMapping k") (auto simp: Object_keys_def map_of_eq_None_iff)

lemma loopBody_not_applies:
  "k \<in> set (Object_keys pathMapping) \<Longrightarrow> \<not> entryApplies pathMapping path k \<Longrightarrow>
     loopBody e path pathMapping k = Inr None"
  using key_has_value [of k pathMapping]
  by (auto simp: loopBody_cases entryApplies_def split: option.splits)

lemma loopBody_applies:
  "map_of pathMapping k = Some r \<Longrightarrow> \<not> skipsEntry k r \<Longrightarrow> patternMatch path k = Some groups \<Longrightarrow>
     loopBody e path pathMapping k = map_sum id Some (mappedPathOf e r groups)"
  by (simp add: loopBody_cases)

lemma applyLoop_skip_prefix:
  "\<forall>k \<in> set before. loopBody e path pathMapping k = Inr None \<Longrightarrow>
     applyLoop e path pathMapping (before @ rest) = applyLoop e path pathMapping rest"
  by (induction before) simp_all

lemma applyLoop_all_continue:
  "\<forall>k \<in> set ks. loopBody e path pathMapping k = Inr None \<Longrightarrow>
     applyLoop e path pathMapping ks = Inr None"
  by (induction ks) simp_all

lemma applyLoop_hit:
  "loopBody e path pathMapping k = map_sum id Some res \<Longrightarrow>
     applyLoop e path pathMapping (k # rest) = map_sum id Some res"
  by (cases res) simp_all

lemma applyPathMapping_first_hit:
  assumes "sortedOverrideKeys pathMapping = before @ k # after"
    and "\<forall>k' \<in> set before. loopBody e (String_replaceAll sourcePath [BSL] ''/'') pathMapping k' = Inr None"
    and "loopBody e (String_replaceAll sourcePath [BSL] ''/'') pathMapping k = map_sum id Some res"
  shows "applyPathMapping e sourcePath pathMapping = res"
proof -
  have "applyLoop e (String_replaceAll sourcePath [BSL] ''/'') pathMapping
          (sortedOverrideKeys pathMapping)
        = applyLoop e (String_replaceAll sourcePath [BSL] ''/'') pathMapping (k # after)"
    unfolding assms(1) using assms(2) by (rule applyLoop_skip_prefix)
  also have "\<dots> = map_sum id Some res"
    using assms(3) by (rule applyLoop_hit)
  finally have "applyLoop e (String_replaceAll sourcePath [BSL] ''/'') pathMapping
          (sortedOverrideKeys pathMapping) = map_sum id Some res" .
  then show ?thesis
    by (cases res) (simp_all add: applyPathMapping_def Let_def)
qed

lemma sortedOverrideKeys_set: "set (sortedOverrideKeys pathMapping) = set (Object_keys pathMapping)"
  by (simp add: sortedOverrideKeys_def)











lemma webpack_path_normalized:
  "String_replaceAll ''webpack:///./src/app.js'' [BSL] ''/'' = ''webpack:///./src/app.js''"
  by code_simp

lemma webpack_long_entry:
  "map_of webpackOverrides ''webpack:///./*'' = Some ''/proj/*''
   \<and> \<not> skipsEntry ''webpack:///./*'' ''/proj/*''
   \<and> patternMatch ''webpack:///./src/app.js'' ''webpack:///./*'' = Some [''src/app.js'']"
  by code_simp









lemma keys_of_filtered:
  "distinct (map fst pathMapping) \<Longrightarrow>
     map fst (filter (\<lambda>(k, r). \<not> skipsEntry k r) pathMapping)
       = filter (\<lambda>k. \<exists>r. map_of pathMapping k = Some r \<and> \<not> skipsEntry k r)
           (map fst pathMapping)"
proof (induction pathMapping)
  case Nil
  show ?case by simp
next
  case (Cons entry pathMapping)
  obtain k r where entry: "entry = (k, r)"
    by (cases entry)
  from Cons.prems entry have fresh: "k \<notin> fst ` set pathMapping" and dist: "distinct (map fst pathMapping)"
    by auto
  have "filter (\<lambda>k'. \<exists>r'. map_of (entry # pathMapping) k' = Some r' \<and> \<not> skipsEntry k' r')
           (map fst pathMapping)
        = filter (\<lambda>k'. \<exists>r'. map_of pathMapping k' = Some r' \<and> \<not> skipsEntry k' r')
           (map fst pathMapping)"
    using fresh entry by (intro filter_cong) auto
  with Cons.IH [OF dist] entry show ?case
    by simp
qed

lemma applyLoop_filter:
  "\<forall>k \<in> set ks. \<not> keep k \<longrightarrow> loopBody e path pathMapping k = Inr None \<Longrightarrow>
     applyLoop e path pathMapping (filter keep ks) = applyLoop e path pathMapping ks"
  by (induction ks) (auto split: sum.splits option.splits)

lemma loopBody_cong_table:
  "map_of pathMapping' k = map_of pathMapping k \<Longrightarrow>
     loopBody e path pathMapping' k = loopBody e path pathMapping k"
  by (simp add: loopBody_cases)

lemma applyLoop_cong_table:
  "\<forall>k \<in> set ks. map_of pathMapping' k = map_of pathMapping k \<Longrightarrow>
     applyLoop e path pathMapping' ks = applyLoop e path pathMapping ks"
proof (induction ks)
  case Nil
  show ?case by simp
next
  case (Cons k ks)
  then have "loopBody e path pathMapping' k = loopBody e path pathMapping k"
    by (intro loopBody_cong_table) simp
  with Cons show ?case
    by (simp split: sum.splits option.splits)
qed

lemma applyPathMapping_without_skipped:
  assumes "distinct (Object_keys pathMapping)"
  shows "applyPathMapping e sourcePath (filter (\<lambda>(k, r). \<not> skipsEntry k r) pathMapping)
           = applyPathMapping e sourcePath pathMapping"
proof -
  let ?kept = "filter (\<lambda>(k, r). \<not> skipsEntry k r) pathMapping"
  let ?keep = "\<lambda>k. \<exists>r. map_of pathMapping k = Some r \<and> \<not> skipsEntry k r"
  let ?path = "String_replaceAll sourcePath [BSL] ''/''"
  have keys: "sortedOverrideKeys ?kept = filter ?keep (sortedOverrideKeys pathMapping)"
    using assms by (simp add: sortedOverrideKeys_def Object_keys_def keys_of_filtered filter_sort)
  have same: "\<forall>k \<in> set (filter ?keep (sortedOverrideKeys pathMapping)).
                map_of ?kept k = map_of pathMapping k"
    by (auto simp: map_of_filter_in)
  have skipped: "\<forall>k \<in> set (sortedOverrideKeys pathMapping).
                   \<not> ?keep k \<longrightarrow> loopBody e ?path pathMapping k = Inr None"
  proof (intro ballI impI)
    fix k
    assume "k \<in> set (sortedOverrideKeys pathMapping)" and drop: "\<not> ?keep k"
    then obtain r where r: "map_of pathMapping k = Some r"
      using key_has_value [of k pathMapping] by (auto simp: sortedOverrideKeys_set)
    with drop have "skipsEntry k r"
      by simp
    with r show "loopBody e ?path pathMapping k = Inr None"
      by (simp add: loopBody_cases)
  qed
  have "applyLoop e ?path ?kept (sortedOverrideKeys ?kept)
          = applyLoop e ?path pathMapping (filter ?keep (sortedOverrideKeys pathMapping))"
    unfolding keys using same by (rule applyLoop_cong_table)
  also have "\<dots> = applyLoop e ?path pathMapping (sortedOverrideKeys pathMapping)"
    using skipped by (rule applyLoop_filter)
  finally show ?thesis
    by (simp add: applyPathMapping_def Let_def)
qed

lemma applyPathMapping_no_match:
  assumes "\<forall>k \<in> set (Object_keys pathMapping).
             \<not> entryApplies pathMapping (String_replaceAll sourcePath [BSL] ''/'') k"
  shows "applyPathMapping e sourcePath pathMapping = Inr sourcePath"
proof -
  have "\<forall>k \<in> set (sortedOverrideKeys pathMapping).
          loopBody e (String_replaceAll sourcePath [BSL] ''/'') pathMapping k = Inr None"
    using assms by (auto simp: sortedOverrideKeys_set intro: loopBody_not_applies)
  then have "applyLoop e (String_replaceAll sourcePath [BSL] ''/'') pathMapping
               (sortedOverrideKeys pathMapping) = Inr None"
    by (rule applyLoop_all_continue)
  then show ?thesis
    by (simp add: applyPathMapping_def Let_def)
qed

text \<open>
  C7. An entry whose left pattern has more than one wildcard, or whose replacement has
  more wildcards than its left pattern, is passed over whatever the path is, and the
  result is the same as for the table without such entries (the keys of an object are
  distinct). When no entry that is not passed over matches the normalized path, the
  result is the source path as it was given, and nothing is thrown.
\<close>

theorem applyPathMapping_skips_and_falls_back:
  "(map_of pathMapping k = Some r \<and> skipsEntry k r
      \<longrightarrow> loopBody e path pathMapping k = Inr None)
   \<and> (distinct (Object_keys pathMapping)
      \<longrightarrow> applyPathMapping e sourcePath pathMapping
            = applyPathMapping e sourcePath (filter (\<lambda>(k, r). \<not> skipsEntry k r) pathMapping))
   \<and> ((\<forall>k \<in> set (Object_keys pathMapping).
           \<not> entryApplies pathMapping (String_replaceAll sourcePath [BSL] ''/'') k)
      \<longrightarrow> applyPathMapping e sourcePath pathMapping = Inr sourcePath)"
  using applyPathMapping_without_skipped [of pathMapping e sourcePath]
    applyPathMapping_no_match [of pathMapping sourcePath e]
  by (simp add: loopBody_cases)

lemma skipping_path_normalized: "String_replaceAll ''aXbY'' [BSL] ''/'' = ''aXbY''"
  by code_simp

lemma skipping_entries:
  "map_of skippingOverrides ''a*b*'' = Some ''x'' \<and> skipsEntry ''a*b*'' ''x''
   \<and> map_of skippingOverrides ''*'' = Some ''**'' \<and> skipsEntry ''*'' ''**''
   \<and> \<not> entryApplies skippingOverrides ''aXbY'' ''a*b*''
   \<and> \<not> entryApplies skippingOverrides ''aXbY'' ''*''
   \<and> \<not> entryApplies skippingOverrides ''aXbY'' ''zzz''"
  by code_simp

lemma skipping_keys:
  "Object_keys skippingOverrides = [''a*b*'', ''*'', ''zzz'']"
  by (simp add: Object_keys_def skippingOverrides_def)

lemma skipping_filtered:
  "filter (\<lambda>(k, r). \<not> skipsEntry k r) skippingOverrides = [(''zzz'', ''y'')]"
  by code_simp

theorem applyPathMapping_skips_and_falls_back_witness:
  "skipsEntry ''a*b*'' ''x'' \<and> skipsEntry ''*'' ''**''
   \<and> String_match ''aXbY'' (Bol # map patternPiece ''a*b*'' @ [Eol]) True = Some [''X'', ''Y'']
   \<and> loopBody posixEnv ''aXbY'' skippingOverrides ''a*b*'' = Inr None
   \<and> loopBody posixEnv ''aXbY'' skippingOverrides ''*'' = Inr None
   \<and> applyPathMapping posixEnv ''aXbY'' skippingOverrides = Inr ''aXbY''
   \<and> applyPathMapping posixEnv ''aXbY'' [(''zzz'', ''y'')] = Inr ''aXbY''"
proof -
  have m: "String_match ''aXbY'' (Bol # map patternPiece ''a*b*'' @ [Eol]) True
             = Some [''X'', ''Y'']"
    by code_simp
  have d: "distinct (Object_keys skippingOverrides)"
    by (simp add: skipping_keys)
  note w1 = applyPathMapping_skips_and_falls_back [where pathMapping = skippingOverrides
      and k = "''a*b*''" and r = "''x''" and e = posixEnv and path = "''aXbY''"
      and sourcePath = "''aXbY''"]
  note w2 = applyPathMapping_skips_and_falls_back [where pathMapping = skippingOverrides
      and k = "''*''" and r = "''**''" and e = posixEnv and path = "''aXbY''"
      and sourcePath = "''aXbY''"]
  from w1 w2 show ?thesis
    unfolding skipping_path_normalized skipping_filtered
    using skipping_entries m d by (simp add: skipping_keys)
qed

text \<open>
  C3, as the spec states it, has \<^verbatim>\<open>applyPathMapping\<close> resolve the web root. The
  function has no web root: given the table with the placeholder still in it, it
  substitutes the wildcard only, and the placeholder stays in the result.
\<close>

theorem applyPathMapping_keeps_webRoot_placeholder:
  "applyPathMapping posixEnv ''webpack:///./src/app.js'' [(''webpack:///./*'', ''${webRoot}/*'')]
     = Inr ''${webRoot}/src/app.js''
   \<and> applyPathMapping posixEnv ''webpack:///./src/app.js'' [(''webpack:///./*'', ''${webRoot}/*'')]
     \<noteq> Inr ''/proj/src/app.js''"
  by code_simp

lemma spec_example_resolved:
  "resolvedOverrides ''/proj'' [(''webpack:///./*'', ''${webRoot}/*'')]
     = [(''webpack:///./*'', ''/proj/*'')]"
  by code_simp

lemma spec_example_keys:
  "sortedOverrideKeys [(''webpack:///./*'', ''/proj/*'')] = [] @ ''webpack:///./*'' # []"
  by code_simp

lemma spec_example_substituted:
  "String_replaceAll ''/proj/*'' ''*'' (group1 [''src/app.js'']) = ''/proj/src/app.js''"
  by code_simp

lemma spec_example_no_workspace_placeholder:
  "indexOf ''/proj/src/app.js'' ''${workspaceFolder}'' = None"
  by code_simp

text \<open>
  C3, amended. The web root is resolved by \<^verbatim>\<open>getRuntimeConfig\<close>: for the web root
  \<^verbatim>\<open>/proj\<close> it turns the table \<^verbatim>\<open>{"webpack:///./*": "${webRoot}/*"}\<close> into
  \<^verbatim>\<open>{"webpack:///./*": "/proj/*"}\<close>. Applied to that table, with a workspace folder
  open, \<^verbatim>\<open>applyPathMapping\<close> maps \<^verbatim>\<open>webpack:///./src/app.js\<close> to
  \<^verbatim>\<open>/proj/src/app.js\<close>, the two library functions leaving that path as it is.
\<close>

theorem applyPathMapping_spec_example:
  assumes "workspaceFolders e = Some (folder0 # others)" and "folder0 \<noteq> []"
    and "properJoin e ''/proj/src/app.js'' = ''/proj/src/app.js''"
    and "canonicalizeUrl e ''/proj/src/app.js'' = ''/proj/src/app.js''"
  shows "applyPathMapping e ''webpack:///./src/app.js''
           (resolvedOverrides ''/proj'' [(''webpack:///./*'', ''${webRoot}/*'')])
         = Inr ''/proj/src/app.js''"
proof -
  have "String_replace ''/proj/src/app.js'' ''${workspaceFolder}'' folder0 = ''/proj/src/app.js''"
    by (simp add: String_replace_def spec_example_no_workspace_placeholder)
  with assms have mapped: "mappedPathOf e ''/proj/*'' [''src/app.js''] = Inr ''/proj/src/app.js''"
    by (simp add: mappedPathOf_def spec_example_substituted replaceWorkSpaceFolderPlaceholder_def)
  have "loopBody e (String_replaceAll ''webpack:///./src/app.js'' [BSL] ''/'')
          [(''webpack:///./*'', ''/proj/*'')] ''webpack:///./*''
        = map_sum id Some (mappedPathOf e ''/proj/*'' [''src/app.js''])"
    unfolding webpack_path_normalized
    using webpack_long_entry by (intro loopBody_applies) simp_all
  then have "applyPathMapping e ''webpack:///./src/app.js'' [(''webpack:///./*'', ''/proj/*'')]
               = mappedPathOf e ''/proj/*'' [''src/app.js'']"
    by (intro applyPathMapping_first_hit [OF spec_example_keys]) simp_all
  with mapped show ?thesis
    by (simp add: spec_example_resolved)
qed

theorem applyPathMapping_spec_example_witness:
  "workspaceFolders posixEnv = Some (''file:///home/me/ws'' # [])
   \<and> properJoin posixEnv ''/proj/src/app.js'' = ''/proj/src/app.js''
   \<and> canonicalizeUrl posixEnv ''/proj/src/app.js'' = ''/proj/src/app.js''
   \<and> applyPathMapping posixEnv ''webpack:///./src/app.js''
         (resolvedOverrides ''/proj'' [(''webpack:///./*'', ''${webRoot}/*'')])
       = Inr ''/proj/src/app.js''"
  using applyPathMapping_spec_example [of posixEnv "''file:///home/me/ws''" "[]"]
  by (simp add: posixEnv_def)

text \<open>
  C8. The claim: without a workspace root the placeholder step resolves to the empty
  text and does not raise. It does so when \<^verbatim>\<open>workspaceFolders\<close> is undefined. When
  it is the empty list (a workspace with no folder), the source reads \<^verbatim>\<open>uri\<close> of
  the missing first folder, which throws a \<^verbatim>\<open>TypeError\<close>; the error leaves
  \<^verbatim>\<open>applyPathMapping\<close> as soon as a key has matched.
\<close>

theorem replaceWorkSpaceFolderPlaceholder_empty_folder_list:
  "replaceWorkSpaceFolderPlaceholder (e\<lparr>workspaceFolders := None\<rparr>) path = Inr []
   \<and> replaceWorkSpaceFolderPlaceholder (e\<lparr>workspaceFolders := Some []\<rparr>) path = Inl TypeError
   \<and> applyPathMapping emptyWorkspaceEnv ''webpack:///./src/app.js''
         [(''webpack:///./*'', ''/proj/*'')] = Inl TypeError"
proof -
  have "applyPathMapping emptyWorkspaceEnv ''webpack:///./src/app.js''
          [(''webpack:///./*'', ''/proj/*'')] = Inl TypeError"
    by code_simp
  then show ?thesis
    by (simp add: replaceWorkSpaceFolderPlaceholder_def)
qed

section \<open>The screencast panel\<close>

lemma WebviewPanel_dispose_disposed:
  "p \<notin> livePanels s \<Longrightarrow> WebviewPanel_dispose p s = s"
  by (subst WebviewPanel_dispose.simps) simp

lemma dispose_disposed_panel:
  "i \<notin> livePanels s \<Longrightarrow>
     dispose i s = s\<lparr>instance_static := None, liveSockets := liveSockets s - {i}\<rparr>"
  by (subst dispose.simps) (simp add: WebviewPanel_dispose_disposed PanelSocket_dispose_def)

lemma WebviewPanel_dispose_eq:
  "WebviewPanel_dispose p s =
     (if p \<in> livePanels s
      then s\<lparr>instance_static := None, livePanels := livePanels s - {p},
             liveSockets := liveSockets s - {p}\<rparr>
      else s)"
  by (subst WebviewPanel_dispose.simps)
     (simp add: dispose_disposed_panel PanelSocket_dispose_def)

lemma dispose_eq:
  "dispose i s =
     s\<lparr>instance_static := None, livePanels := livePanels s - {i},
       liveSockets := liveSockets s - {i}\<rparr>"
proof (cases "i \<in> livePanels s")
  case True
  then show ?thesis
    by (subst dispose.simps) (simp add: WebviewPanel_dispose_eq PanelSocket_dispose_def Let_def)
next
  case False
  then have "livePanels s - {i} = livePanels s"
    by auto
  with False show ?thesis
    by (simp add: dispose_disposed_panel)
qed

lemma createOrShow_eq:
  "createOrShow s =
     (case instance_static s of
        None \<Rightarrow>
          s\<lparr>instance_static := Some (nextPanel s),
            livePanels := insert (nextPanel s) (livePanels s),
            liveSockets := insert (nextPanel s) (liveSockets s),
            nextPanel := Suc (nextPanel s)\<rparr>
      | Some i \<Rightarrow>
          s\<lparr>instance_static := Some (nextPanel s),
            livePanels := insert (nextPanel s) (livePanels s - {i}),
            liveSockets := insert (nextPanel s) (liveSockets s - {i}),
            nextPanel := Suc (nextPanel s)\<rparr>)"
  by (simp add: createOrShow_def dispose_eq Let_def split: option.splits)

lemma reachable_invariant:
  "reachable s \<Longrightarrow>
     livePanels s \<subseteq> set_option (instance_static s)
     \<and> liveSockets s \<subseteq> set_option (instance_static s)
     \<and> (\<forall>i \<in> set_option (instance_static s). i < nextPanel s)"
proof (induction rule: reachable.induct)
  case start
  show ?case by (simp add: initialState_def)
next
  case (create s)
  then show ?case
    by (cases "instance_static s") (auto simp: createOrShow_eq)
next
  case (panelClosed s p)
  then show ?case
    by (cases "instance_static s") (auto simp: WebviewPanel_dispose_eq)
next
  case (socketClosed s i)
  then show ?case
    by (cases "instance_static s") (auto simp: dispose_eq)
qed

text \<open>
  C9. In every state the extension reaches there is at most one live panel socket and
  at most one live panel, and they belong to the recorded instance. A call of
  \<^verbatim>\<open>createOrShow\<close> disposes the recorded instance, its panel and its socket, and
  only then creates the new one: afterwards the new instance is the recorded one and
  its panel and socket are the only live ones.
\<close>

theorem createOrShow_replaces_instance:
  assumes "reachable s"
  shows "card (liveSockets s) \<le> 1 \<and> card (livePanels s) \<le> 1
     \<and> liveSockets s \<subseteq> set_option (instance_static s)
     \<and> instance_static (createOrShow s) = Some (nextPanel s)
     \<and> liveSockets (createOrShow s) = {nextPanel s}
     \<and> livePanels (createOrShow s) = {nextPanel s}
     \<and> (\<forall>i. instance_static s = Some i \<longrightarrow>
            liveSockets (dispose i s) = {} \<and> livePanels (dispose i s) = {}
            \<and> i \<notin> liveSockets (createOrShow s) \<and> i \<notin> livePanels (createOrShow s))"
proof -
  note inv = reachable_invariant [OF assms]
  show ?thesis
  proof (cases "instance_static s")
    case None
    with inv show ?thesis
      by (simp add: createOrShow_eq)
  next
    case (Some i)
    with inv have sub: "livePanels s \<subseteq> {i}" "liveSockets s \<subseteq> {i}" and fresh: "i < nextPanel s"
      by simp_all
    from sub have "card (liveSockets s) \<le> card {i}" "card (livePanels s) \<le> card {i}"
      by (intro card_mono; simp)+
    then have small: "card (liveSockets s) \<le> 1" "card (livePanels s) \<le> 1"
      by simp_all
    from small Some sub fresh show ?thesis
      by (auto simp: createOrShow_eq dispose_eq)
  qed
qed

lemma reachable_two_calls: "reachable (createOrShow initialState)"
  by (intro reachable.create reachable.start)

theorem createOrShow_replaces_instance_witness:
  "reachable (createOrShow initialState)
   \<and> instance_static (createOrShow initialState) = Some 0
   \<and> liveSockets (createOrShow initialState) = {0}
   \<and> instance_static (createOrShow (createOrShow initialState)) = Some 1
   \<and> liveSockets (createOrShow (createOrShow initialState)) = {1}
   \<and> livePanels (createOrShow (createOrShow initialState)) = {1}
   \<and> 0 \<notin> liveSockets (createOrShow (createOrShow initialState))"
proof -
  note w = createOrShow_replaces_instance [OF reachable_two_calls]
  have first: "nextPanel (createOrShow initialState) = 1"
    "instance_static (createOrShow initialState) = Some 0"
    "liveSockets (createOrShow initialState) = {0}"
    by (simp_all add: createOrShow_eq initialState_def)
  from w first
  have "instance_static (createOrShow (createOrShow initialState)) = Some 1
        \<and> liveSockets (createOrShow (createOrShow initialState)) = {1}
        \<and> livePanels (createOrShow (createOrShow initialState)) = {1}
        \<and> 0 \<notin> liveSockets (createOrShow (createOrShow initialState))"
    by simp
  with reachable_two_calls first show ?thesis
    by simp
qed

end
